theory Spec2Isabelle
  imports Main "HOL-Library.AList"
begin

section \<open>Data model\<close>

text \<open>
  The importer (\<^verbatim>\<open>import_cdb.py\<close>) keeps three dictionaries: \<^verbatim>\<open>global_et\<close> (element type
  number to family code), \<^verbatim>\<open>global_e\<close> (element number to the tuple
  \<^verbatim>\<open>(mat, real, type, v1, ..., vn)\<close>) and \<^verbatim>\<open>global_n\<close> (node number to coordinate).
  A Python dictionary keeps its keys in insertion order, and storing under a key that exists
  keeps the key's place: this is an association list with \<^const>\<open>AList.update\<close>, looked up
  with \<^const>\<open>map_of\<close>. Python integers are unbounded: \<^typ>\<open>int\<close>. A tuple of node numbers
  is an \<^typ>\<open>int list\<close>. Every exception the source can raise is a value of \<open>error\<close>.
\<close>

datatype error = KeyError | IndexError | ValueError | NameError | UnboundLocalError | TypeError

type_synonym face = "int list"
type_synonym element = "int list"
type_synonym group = "int \<times> int"
type_synonym counted = "(group \<times> (face \<times> nat) list) list"
type_synonym outer = "(group \<times> face list) list"

section \<open>Face extraction: \<^verbatim>\<open>get_faces\<close>\<close>

text \<open>
  \<^verbatim>\<open>order_face\<close>: the first loop finds the index of the first smallest entry (the comparison
  is strict), the second loop copies the tuple from there, wrapping around.
\<close>

definition min_index :: "face \<Rightarrow> nat" where
  "min_index f = fold (\<lambda>i m. if f ! (i + 1) < f ! m then i + 1 else m) [0..<length f - 1] 0"

definition order_face :: "face \<Rightarrow> face" where
  "order_face f =
     (if length f = 0 then []
      else map (\<lambda>i. let index = min_index f + i
                     in f ! (if index \<ge> length f then index - length f else index))
               [0..<length f])"

text \<open>
  \<^verbatim>\<open>inverse_face\<close>: keeps \<^verbatim>\<open>f[0]\<close> and appends \<^verbatim>\<open>f[len(f) - i - 1]\<close> for
  \<^verbatim>\<open>i = 0 .. len(f) - 2\<close>.
\<close>

definition inverse_face :: "face \<Rightarrow> face" where
  "inverse_face f =
     (if length f = 0 then []
      else fold (\<lambda>i inversed_face. inversed_face @ [f ! (length f - i - 1)])
                [0..<length f - 1] [f ! 0])"

definition faces_on_8hexahedral ::
  "int \<Rightarrow> int \<Rightarrow> int \<Rightarrow> int \<Rightarrow> int \<Rightarrow> int \<Rightarrow> int \<Rightarrow> int \<Rightarrow> face list" where
  "faces_on_8hexahedral v1 v2 v3 v4 v5 v6 v7 v8 =
     [order_face [v1, v4, v3, v2],
      order_face [v1, v2, v6, v5],
      order_face [v2, v3, v7, v6],
      order_face [v3, v4, v8, v7],
      order_face [v4, v1, v5, v8],
      order_face [v5, v6, v7, v8]]"

definition faces_on_6wedge :: "int \<Rightarrow> int \<Rightarrow> int \<Rightarrow> int \<Rightarrow> int \<Rightarrow> int \<Rightarrow> face list" where
  "faces_on_6wedge v1 v2 v3 v4 v5 v6 =
     [order_face [v1, v3, v2],
      order_face [v1, v2, v5, v4],
      order_face [v2, v3, v6, v5],
      order_face [v3, v1, v4, v6],
      order_face [v4, v5, v6]]"

definition faces_on_5pyramid :: "int \<Rightarrow> int \<Rightarrow> int \<Rightarrow> int \<Rightarrow> int \<Rightarrow> face list" where
  "faces_on_5pyramid v1 v2 v3 v4 v5 =
     [order_face [v1, v4, v3, v2],
      order_face [v1, v2, v5],
      order_face [v2, v3, v5],
      order_face [v3, v4, v5],
      order_face [v4, v1, v5]]"

definition faces_on_4tetrahedral :: "int \<Rightarrow> int \<Rightarrow> int \<Rightarrow> int \<Rightarrow> face list" where
  "faces_on_4tetrahedral v1 v2 v3 v4 =
     [order_face [v1, v3, v2],
      order_face [v1, v2, v4],
      order_face [v2, v3, v4],
      order_face [v3, v1, v4]]"

definition faces_on_20hexahedral ::
  "int \<Rightarrow> int \<Rightarrow> int \<Rightarrow> int \<Rightarrow> int \<Rightarrow> int \<Rightarrow> int \<Rightarrow> int \<Rightarrow> int \<Rightarrow> int \<Rightarrow> int \<Rightarrow> int \<Rightarrow>
   int \<Rightarrow> int \<Rightarrow> int \<Rightarrow> int \<Rightarrow> int \<Rightarrow> int \<Rightarrow> int \<Rightarrow> int \<Rightarrow> face list" where
  "faces_on_20hexahedral v1 v2 v3 v4 v5 v6 v7 v8 v12 v23 v34 v14 v56 v67 v78 v58 v15 v26 v37 v48 =
     [order_face [v1, v14, v4, v34, v3, v23, v2, v12],
      order_face [v1, v12, v2, v26, v6, v56, v5, v15],
      order_face [v2, v23, v3, v37, v7, v67, v6, v26],
      order_face [v3, v34, v4, v48, v8, v78, v7, v37],
      order_face [v4, v14, v1, v15, v5, v58, v8, v48],
      order_face [v5, v56, v6, v67, v7, v78, v8, v58]]"

text \<open>
  \<^verbatim>\<open>faces_on_15wedge\<close> builds its first tuple from \<^verbatim>\<open>v32\<close> and \<^verbatim>\<open>v21\<close>, names that are bound
  nowhere (the parameters are \<^verbatim>\<open>v23\<close> and \<^verbatim>\<open>v12\<close>): every call raises \<^verbatim>\<open>NameError\<close>.
\<close>

definition faces_on_15wedge ::
  "int \<Rightarrow> int \<Rightarrow> int \<Rightarrow> int \<Rightarrow> int \<Rightarrow> int \<Rightarrow> int \<Rightarrow> int \<Rightarrow> int \<Rightarrow> int \<Rightarrow> int \<Rightarrow> int \<Rightarrow>
   int \<Rightarrow> int \<Rightarrow> int \<Rightarrow> error + face list" where
  "faces_on_15wedge v1 v2 v3 v4 v5 v6 v12 v23 v13 v45 v56 v46 v14 v25 v36 = Inl NameError"

definition faces_on_13pyramid ::
  "int \<Rightarrow> int \<Rightarrow> int \<Rightarrow> int \<Rightarrow> int \<Rightarrow> int \<Rightarrow> int \<Rightarrow> int \<Rightarrow> int \<Rightarrow> int \<Rightarrow> int \<Rightarrow> int \<Rightarrow>
   int \<Rightarrow> face list" where
  "faces_on_13pyramid v1 v2 v3 v4 v5 v12 v23 v34 v14 v15 v25 v35 v45 =
     [order_face [v1, v14, v4, v34, v3, v23, v2, v12],
      order_face [v1, v12, v2, v25, v5, v15],
      order_face [v2, v23, v3, v35, v5, v25],
      order_face [v3, v34, v4, v45, v5, v35],
      order_face [v4, v14, v1, v15, v5, v45]]"

definition faces_on_10tetrahedral ::
  "int \<Rightarrow> int \<Rightarrow> int \<Rightarrow> int \<Rightarrow> int \<Rightarrow> int \<Rightarrow> int \<Rightarrow> int \<Rightarrow> int \<Rightarrow> int \<Rightarrow> face list" where
  "faces_on_10tetrahedral v1 v2 v3 v4 v12 v23 v13 v14 v24 v34 =
     [order_face [v1, v13, v3, v23, v2, v12],
      order_face [v1, v12, v2, v24, v4, v14],
      order_face [v2, v23, v3, v34, v4, v24],
      order_face [v3, v13, v1, v14, v4, v34]]"

definition faces_on_4rectangle :: "int \<Rightarrow> int \<Rightarrow> int \<Rightarrow> int \<Rightarrow> face list" where
  "faces_on_4rectangle v1 v2 v3 v4 = [order_face [v1, v2, v3, v4]]"

definition faces_on_3triangle :: "int \<Rightarrow> int \<Rightarrow> int \<Rightarrow> face list" where
  "faces_on_3triangle v1 v2 v3 = [order_face [v1, v2, v3]]"

definition faces_on_8rectangle ::
  "int \<Rightarrow> int \<Rightarrow> int \<Rightarrow> int \<Rightarrow> int \<Rightarrow> int \<Rightarrow> int \<Rightarrow> int \<Rightarrow> face list" where
  "faces_on_8rectangle v1 v2 v3 v4 v12 v23 v34 v14 =
     [order_face [v1, v12, v2, v23, v3, v34, v4, v14]]"

definition faces_on_6triangle :: "int \<Rightarrow> int \<Rightarrow> int \<Rightarrow> int \<Rightarrow> int \<Rightarrow> int \<Rightarrow> face list" where
  "faces_on_6triangle v1 v12 v2 v23 v3 v13 = [order_face [v1, v12, v2, v23, v3, v13]]"

text \<open>
  One pass of the loop body of \<^verbatim>\<open>get_all_faces\<close> up to the face list, the body of each
  family's branch as a function of its own. The result
  \<open>None\<close> is a \<^verbatim>\<open>continue\<close>. The local \<^verbatim>\<open>v13\<close> is assigned only in the branch of the
  families 92 and 187 and read in the branch of 93 and 281 when \<^verbatim>\<open>v3 == v4\<close>; a local of
  \<^verbatim>\<open>get_all_faces\<close> outlives the iteration, so it is threaded through the loop
  (\<open>None\<close>: not bound yet, reading it raises \<^verbatim>\<open>UnboundLocalError\<close>). The branches are
  tested in the order of the source.
\<close>

definition shell_faces :: "int option \<Rightarrow> element \<Rightarrow> error + (face list option \<times> int option)" where
  "shell_faces v13 e =
     (if length e < 7 then Inr (None, v13)
      else let v1 = e ! 3; v2 = e ! 4; v3 = e ! 5; v4 = e ! 6
           in if v3 = v4 then Inr (Some (faces_on_3triangle v1 v2 v3), v13)
              else Inr (Some (faces_on_4rectangle v1 v2 v3 v4), v13))"

definition midside_shell_faces ::
  "int option \<Rightarrow> element \<Rightarrow> error + (face list option \<times> int option)" where
  "midside_shell_faces v13 e =
     (if length e < 11 then Inr (None, v13)
      else let v1 = e ! 3; v2 = e ! 4; v3 = e ! 5; v4 = e ! 6;
               v12 = e ! 7; v23 = e ! 8; v34 = e ! 9; v14 = e ! 10
           in if v3 = v4 then
                (case v13 of
                   None \<Rightarrow> Inl UnboundLocalError
                 | Some w13 \<Rightarrow> Inr (Some (faces_on_6triangle v1 v12 v2 v23 v3 w13), v13))
              else Inr (Some (faces_on_8rectangle v1 v2 v3 v4 v12 v23 v34 v14), v13))"

definition solid_faces :: "int option \<Rightarrow> element \<Rightarrow> error + (face list option \<times> int option)" where
  "solid_faces v13 e =
     (if length e < 11 then Inr (None, v13)
      else let v1 = e ! 3; v2 = e ! 4; v3 = e ! 5; v4 = e ! 6;
               v5 = e ! 7; v6 = e ! 8; v7 = e ! 9; v8 = e ! 10
           in if v3 = v4 \<and> v7 = v8 then
                Inr (Some (faces_on_6wedge v1 v2 v3 v5 v6 v7), v13)
              else if v5 = v6 \<and> v5 = v7 \<and> v5 = v8 then
                Inr (Some (faces_on_5pyramid v1 v2 v3 v4 v5), v13)
              else if v3 = v4 \<and> v5 = v6 \<and> v5 = v7 \<and> v5 = v8 then
                Inr (Some (faces_on_4tetrahedral v1 v2 v3 v5), v13)
              else Inr (Some (faces_on_8hexahedral v1 v2 v3 v4 v5 v6 v7 v8), v13))"

definition midside_solid_faces ::
  "int option \<Rightarrow> element \<Rightarrow> error + (face list option \<times> int option)" where
  "midside_solid_faces v13 e =
     (if length e < 23 then Inr (None, v13)
      else let v1 = e ! 3; v2 = e ! 4; v3 = e ! 5; v4 = e ! 6;
               v5 = e ! 7; v6 = e ! 8; v7 = e ! 9; v8 = e ! 10;
               v12 = e ! 11; v23 = e ! 12; v34 = e ! 13; v14 = e ! 14;
               v56 = e ! 15; v67 = e ! 16; v78 = e ! 17; v58 = e ! 18;
               v15 = e ! 19; v26 = e ! 20; v37 = e ! 21; v48 = e ! 22
           in if v3 = v4 \<and> v7 = v8 then
                (case faces_on_15wedge v1 v2 v3 v5 v6 v7 v12 v23 v14 v56 v67 v58 v15 v26 v37 of
                   Inl err \<Rightarrow> Inl err
                 | Inr discarded \<Rightarrow> Inr (Some [], v13))
              else if v5 = v6 \<and> v5 = v7 \<and> v5 = v8 then
                Inr (Some (faces_on_13pyramid v1 v2 v3 v4 v5 v12 v23 v34 v14 v15 v26 v37 v48), v13)
              else if v3 = v4 \<and> v5 = v6 \<and> v5 = v7 \<and> v5 = v8 then
                Inr (Some (faces_on_10tetrahedral v1 v2 v3 v5 v12 v23 v14 v15 v26 v37), v13)
              else Inr (Some (faces_on_20hexahedral v1 v2 v3 v4 v5 v6 v7 v8
                                v12 v23 v34 v14 v56 v67 v78 v58 v15 v26 v37 v48), v13))"

definition midside_tetra_faces ::
  "int option \<Rightarrow> element \<Rightarrow> error + (face list option \<times> int option)" where
  "midside_tetra_faces v13 e =
     (if length e < 13 then Inr (None, v13)
      else let v1 = e ! 3; v2 = e ! 4; v3 = e ! 5; v4 = e ! 6; v12 = e ! 7; v23 = e ! 8;
               w13 = e ! 9; v14 = e ! 10; v24 = e ! 11; v34 = e ! 12
           in Inr (Some (faces_on_10tetrahedral v1 v2 v3 v4 v12 v23 w13 v14 v24 v34), Some w13))"

definition element_faces ::
  "(int \<times> int) list \<Rightarrow> int option \<Rightarrow> element \<Rightarrow> error + (face list option \<times> int option)" where
  "element_faces global_et v13 e =
     (if length e < 3 then Inr (None, v13)
      else case map_of global_et (e ! 2) of
        None \<Rightarrow> Inr (None, v13)
      | Some etype \<Rightarrow>
          if etype = 28 \<or> etype = 63 \<or> etype = 152 then shell_faces v13 e
          else if etype = 93 \<or> etype = 281 then midside_shell_faces v13 e
          else if etype = 45 \<or> etype = 185 then solid_faces v13 e
          else if etype = 95 \<or> etype = 186 then midside_solid_faces v13 e
          else if etype = 92 \<or> etype = 187 then midside_tetra_faces v13 e
          else Inr (None, v13))"

text \<open>
  The counting part of the loop body: the group \<^verbatim>\<open>(element_mat, element_real)\<close> gets an empty
  dictionary if it has none, then every face's count goes up by one.
\<close>

definition count_face :: "group \<Rightarrow> face \<Rightarrow> counted \<Rightarrow> counted" where
  "count_face element_id face counted_faces =
     (case map_of counted_faces element_id of
        None \<Rightarrow> counted_faces
      | Some d \<Rightarrow>
          let face_count = (case map_of d face of None \<Rightarrow> 0 | Some c \<Rightarrow> c);
              face_count = face_count + 1
          in AList.update element_id (AList.update face face_count d) counted_faces)"

definition count_faces :: "group \<Rightarrow> face list \<Rightarrow> counted \<Rightarrow> counted" where
  "count_faces element_id faces counted_faces =
     fold (count_face element_id) faces
       (if map_of counted_faces element_id = None
        then AList.update element_id [] counted_faces else counted_faces)"

fun get_all_faces_loop ::
  "(int \<times> int) list \<Rightarrow> element list \<Rightarrow> int option \<Rightarrow> counted \<Rightarrow> error + counted" where
  "get_all_faces_loop global_et [] v13 counted_faces = Inr counted_faces"
| "get_all_faces_loop global_et (e # es) v13 counted_faces =
     (case element_faces global_et v13 e of
        Inl err \<Rightarrow> Inl err
      | Inr (None, v13') \<Rightarrow> get_all_faces_loop global_et es v13' counted_faces
      | Inr (Some faces, v13') \<Rightarrow>
          get_all_faces_loop global_et es v13' (count_faces (e ! 0, e ! 1) faces counted_faces))"

definition get_all_faces :: "(int \<times> element) list \<Rightarrow> (int \<times> int) list \<Rightarrow> error + counted" where
  "get_all_faces global_e global_et = get_all_faces_loop global_et (map snd global_e) None []"

text \<open>
  \<^verbatim>\<open>get_outer_faces\<close>. The outer faces of a group are a Python set; the model keeps them as
  the list of the faces added, in the order of the group's dictionary. What order Python
  iterates the set in is not fixed by the source, so whatever consumes the set is stated for
  every order. \<^verbatim>\<open>inverse_face\<close> of an empty tuple is a list, which cannot be looked up
  in a dictionary (\<^verbatim>\<open>TypeError\<close>).
\<close>

definition outer_of_group :: "bool \<Rightarrow> (face \<times> nat) list \<Rightarrow> error + face list" where
  "outer_of_group remove_duplicates d =
     (if [] \<in> set (map fst d) then Inl TypeError
      else Inr (filter (\<lambda>f. map_of d (inverse_face f) = None \<and>
                           (\<not> remove_duplicates \<or> map_of d f = Some 1))
                       (map fst d)))"

fun get_outer_faces_loop :: "bool \<Rightarrow> counted \<Rightarrow> outer \<Rightarrow> error + outer" where
  "get_outer_faces_loop remove_duplicates [] outer_faces = Inr outer_faces"
| "get_outer_faces_loop remove_duplicates ((element_id, d) # rest) outer_faces =
     (case outer_of_group remove_duplicates d of
        Inl err \<Rightarrow> Inl err
      | Inr fs \<Rightarrow> get_outer_faces_loop remove_duplicates rest (AList.update element_id fs outer_faces))"

definition get_outer_faces :: "bool \<Rightarrow> counted \<Rightarrow> error + outer" where
  "get_outer_faces remove_duplicates counted_faces =
     get_outer_faces_loop remove_duplicates counted_faces []"

definition get_faces :: "(int \<times> element) list \<Rightarrow> (int \<times> int) list \<Rightarrow> bool \<Rightarrow> error + outer" where
  "get_faces global_e global_et remove_duplicates =
     (case get_all_faces global_e global_et of
        Inl err \<Rightarrow> Inl err
      | Inr counted_faces \<Rightarrow> get_outer_faces remove_duplicates counted_faces)"

section \<open>Renumbering: \<^verbatim>\<open>renumber\<close>\<close>

text \<open>
  For one group the source keeps \<^verbatim>\<open>index_number\<close>, the dictionary \<^verbatim>\<open>vert_coords\<close> from
  coordinate to index, and the two output lists. The dictionary is keyed by the coordinate
  \<^verbatim>\<open>global_n[v]\<close>, not by the node number \<^verbatim>\<open>v\<close>. \<^verbatim>\<open>global_n[v]\<close> raises \<^verbatim>\<open>KeyError\<close> for a
  node number that is not in the node table, and nothing catches it. Coordinates are an
  arbitrary type \<open>'v\<close> with equality.
\<close>

record 'v renum =
  index_number :: nat
  vert_coords :: "'v \<rightharpoonup> nat"
  verts :: "'v list"
  faces :: "nat list list"

fun renumber_face :: "(int \<times> 'v) list \<Rightarrow> face \<Rightarrow> 'v renum \<Rightarrow> nat list \<Rightarrow> error + ('v renum \<times> nat list)" where
  "renumber_face global_n [] st face = Inr (st, face)"
| "renumber_face global_n (v # vs) st face =
     (case map_of global_n v of
        None \<Rightarrow> Inl KeyError
      | Some coord \<Rightarrow>
          (case vert_coords st coord of
             Some index \<Rightarrow> renumber_face global_n vs st (face @ [index])
           | None \<Rightarrow>
               renumber_face global_n vs
                 (st\<lparr>vert_coords := (vert_coords st)(coord \<mapsto> index_number st),
                     index_number := index_number st + 1,
                     verts := verts st @ [coord]\<rparr>)
                 (face @ [index_number st])))"

fun renumber_faces :: "(int \<times> 'v) list \<Rightarrow> face list \<Rightarrow> 'v renum \<Rightarrow> error + 'v renum" where
  "renumber_faces global_n [] st = Inr st"
| "renumber_faces global_n (f # fs) st =
     (case renumber_face global_n f st [] of
        Inl err \<Rightarrow> Inl err
      | Inr (st', face) \<Rightarrow> renumber_faces global_n fs (st'\<lparr>faces := faces st' @ [face]\<rparr>))"

definition renumber_group :: "(int \<times> 'v) list \<Rightarrow> face list \<Rightarrow> error + ('v list \<times> nat list list)" where
  "renumber_group global_n fs =
     (case renumber_faces global_n fs
             \<lparr>index_number = 0, vert_coords = Map.empty, verts = [], faces = []\<rparr> of
        Inl err \<Rightarrow> Inl err
      | Inr st \<Rightarrow> Inr (verts st, faces st))"

fun renumber_loop ::
  "(int \<times> 'v) list \<Rightarrow> outer \<Rightarrow> (group \<times> 'v list) list \<Rightarrow> (group \<times> nat list list) list \<Rightarrow>
   error + ((group \<times> 'v list) list \<times> (group \<times> nat list list) list)" where
  "renumber_loop global_n [] vs fs = Inr (vs, fs)"
| "renumber_loop global_n ((face_type, gfs) # rest) vs fs =
     (case renumber_group global_n gfs of
        Inl err \<Rightarrow> Inl err
      | Inr (gv, gf) \<Rightarrow>
          renumber_loop global_n rest (AList.update face_type gv vs) (AList.update face_type gf fs))"

definition renumber ::
  "(int \<times> 'v) list \<Rightarrow> outer \<Rightarrow>
   error + ((group \<times> 'v list) list \<times> (group \<times> nat list list) list)" where
  "renumber global_n global_faces = renumber_loop global_n global_faces [] []"

section \<open>Strings and the built-in functions the reader uses\<close>

text \<open>
  The text of a deck is ASCII and a Python \<^verbatim>\<open>str\<close> of it is a \<^typ>\<open>string\<close>. The methods and
  built-in functions the reader calls are modelled on ASCII text: \<^verbatim>\<open>str.strip\<close> (white space
  is the characters 9 to 13, 28 to 31 and 32), \<^verbatim>\<open>str.lower\<close>, \<^verbatim>\<open>str.isdigit\<close>,
  \<^verbatim>\<open>str.split\<close>, \<^verbatim>\<open>str.find\<close>, \<^verbatim>\<open>str.rfind\<close>, slicing, and \<^verbatim>\<open>int\<close> (white space around,
  an optional sign, decimal digits that single underscores may separate; \<open>None\<close> is
  \<^verbatim>\<open>ValueError\<close>). \<^verbatim>\<open>float\<close> and the conversion \<^verbatim>\<open>%16.9g\<close> are not modelled: floating-point
  numbers are an arbitrary type \<open>'c\<close> with a zero, and the reader takes \<^verbatim>\<open>float\<close> as the
  parameter \<open>pyfloat\<close>, the writer takes \<^verbatim>\<open>%16.9g\<close> as the parameter \<open>fmt_g\<close>. A function
  gives equal texts one value, and a value of \<open>'c\<close> is equal to itself: a text that
  \<^verbatim>\<open>float\<close> converts to a NaN, which Python keeps unequal to every value and to itself, is
  outside what the model covers.
\<close>

definition newline :: char where
  "newline = CHR 0x0A"

definition isspace :: "char \<Rightarrow> bool" where
  "isspace c \<longleftrightarrow> c \<in> set [CHR 0x09, CHR 0x0A, CHR 0x0B, CHR 0x0C, CHR 0x0D,
                            CHR 0x1C, CHR 0x1D, CHR 0x1E, CHR 0x1F, CHR 0x20]"

definition isdigit :: "char \<Rightarrow> bool" where
  "isdigit c \<longleftrightarrow> c \<in> set ''0123456789''"

definition digit_value :: "char \<Rightarrow> nat" where
  "digit_value c = length (takeWhile (\<lambda>d. d \<noteq> c) ''0123456789'')"

definition lower_char :: "char \<Rightarrow> char" where
  "lower_char c =
     (case map_of (zip ''ABCDEFGHIJKLMNOPQRSTUVWXYZ'' ''abcdefghijklmnopqrstuvwxyz'') c of
        Some l \<Rightarrow> l | None \<Rightarrow> c)"

definition lower :: "string \<Rightarrow> string" where
  "lower s = map lower_char s"

definition strip :: "string \<Rightarrow> string" where
  "strip s = rev (dropWhile isspace (rev (dropWhile isspace s)))"

definition strip_dots :: "string \<Rightarrow> string" where
  "strip_dots s = rev (dropWhile (\<lambda>c. c = CHR ''.'') (rev (dropWhile (\<lambda>c. c = CHR ''.'') s)))"

fun split_from :: "char \<Rightarrow> string \<Rightarrow> string \<Rightarrow> string list" where
  "split_from sep cur [] = [cur]"
| "split_from sep cur (c # cs) =
     (if c = sep then cur # split_from sep [] cs else split_from sep (cur @ [c]) cs)"

definition split :: "char \<Rightarrow> string \<Rightarrow> string list" where
  "split sep s = split_from sep [] s"

fun int_digits :: "string \<Rightarrow> bool \<Rightarrow> nat \<Rightarrow> nat option" where
  "int_digits [] after_digit acc = (if after_digit then Some acc else None)"
| "int_digits (c # cs) after_digit acc =
     (if isdigit c then int_digits cs True (10 * acc + digit_value c)
      else if c = CHR ''_'' \<and> after_digit then int_digits cs False acc
      else None)"

definition py_int :: "string \<Rightarrow> int option" where
  "py_int s =
     (case strip s of
        [] \<Rightarrow> None
      | c # cs \<Rightarrow>
          if c = CHR ''-'' then map_option (\<lambda>n. - int n) (int_digits cs False 0)
          else if c = CHR ''+'' then map_option int (int_digits cs False 0)
          else map_option int (int_digits (c # cs) False 0))"

definition slice_index :: "nat \<Rightarrow> int \<Rightarrow> nat" where
  "slice_index n i = (if i < 0 then nat (max 0 (int n + i)) else min (nat i) n)"

definition py_slice :: "'a list \<Rightarrow> int \<Rightarrow> int \<Rightarrow> 'a list" where
  "py_slice s a b = take (slice_index (length s) b - slice_index (length s) a)
                         (drop (slice_index (length s) a) s)"

definition find_char :: "char \<Rightarrow> string \<Rightarrow> int" where
  "find_char c s = (if c \<in> set s then int (length (takeWhile (\<lambda>d. d \<noteq> c) s)) else - 1)"

definition rfind_char :: "char \<Rightarrow> string \<Rightarrow> int" where
  "rfind_char c s =
     (if c \<in> set s then int (length s) - 1 - int (length (takeWhile (\<lambda>d. d \<noteq> c) (rev s))) else - 1)"

definition token :: "string list \<Rightarrow> nat \<Rightarrow> string option" where
  "token tokens i = (if i < length tokens then Some (tokens ! i) else None)"

definition int_token :: "string list \<Rightarrow> nat \<Rightarrow> int option" where
  "int_token tokens i = (case token tokens i of None \<Rightarrow> None | Some t \<Rightarrow> py_int t)"

section \<open>The file\<close>

text \<open>
  An open file is the list of the lines that are still to be read, each with its newline
  (the last one may lack it). \<^verbatim>\<open>readline\<close> returns the first of them, or the empty string at
  the end of the file. The file is opened with \<^verbatim>\<open>open(cdbfilename, 'r')\<close>, which reads with
  universal newlines: a carriage return followed by a line feed, and a carriage return alone,
  both end a line and are read as one line feed.
\<close>

fun lines_from :: "string \<Rightarrow> string \<Rightarrow> string list" where
  "lines_from cur [] = (if cur = [] then [] else [cur])"
| "lines_from cur (c # cs) =
     (if c = newline then (cur @ [c]) # lines_from [] cs else lines_from (cur @ [c]) cs)"

fun universal_newlines :: "string \<Rightarrow> string" where
  "universal_newlines [] = []"
| "universal_newlines [c] = (if c = CHR 0x0D then [newline] else [c])"
| "universal_newlines (c # d # cs) =
     (if c = CHR 0x0D then
        (if d = newline then newline # universal_newlines cs
         else newline # universal_newlines (d # cs))
      else c # universal_newlines (d # cs))"

definition lines_of :: "string \<Rightarrow> string list" where
  "lines_of content = lines_from [] (universal_newlines content)"

definition readline :: "string list \<Rightarrow> string \<times> string list" where
  "readline filehandle = (case filehandle of [] \<Rightarrow> ([], []) | l # ls \<Rightarrow> (l, ls))"

section \<open>The reader: \<^verbatim>\<open>read3DMesh\<close>\<close>

text \<open>
  The state of a parse: the three dictionaries and the four selectors. The handlers declare
  \<^verbatim>\<open>global current_element\<close> (and \<^verbatim>\<open>current_type\<close>, \<^verbatim>\<open>current_mat\<close>, \<^verbatim>\<open>current_real\<close>), so what
  they assign and read under that declaration are names of the module, which are bound only once
  a command has assigned them (\<open>None\<close>: not bound, reading raises \<^verbatim>\<open>NameError\<close>). The
  assignments \<^verbatim>\<open>current_mat = 1\<close> etc. at the top of \<^verbatim>\<open>read3DMesh\<close> bind locals of
  \<^verbatim>\<open>read3DMesh\<close>; \<^verbatim>\<open>readEN\<close> reads \<^verbatim>\<open>current_mat\<close>, \<^verbatim>\<open>current_real\<close> and \<^verbatim>\<open>current_type\<close>
  without a \<^verbatim>\<open>global\<close> declaration, so there they are those locals, which nothing changes:
  the constants \<open>local_current_mat\<close>, \<open>local_current_real\<close>, \<open>local_current_type\<close>.
\<close>

record 'c mesh =
  global_et :: "(int \<times> int) list"
  global_e :: "(int \<times> element) list"
  global_n :: "(int \<times> 'c \<times> 'c \<times> 'c) list"
  current_element :: "int option"
  current_mat :: "int option"
  current_real :: "int option"
  current_type :: "int option"

definition local_current_mat :: int where "local_current_mat = 1"
definition local_current_real :: int where "local_current_real = 1"
definition local_current_type :: int where "local_current_type = 1"

definition float_token :: "(string \<Rightarrow> 'c option) \<Rightarrow> string list \<Rightarrow> nat \<Rightarrow> 'c::zero" where
  "float_token pyfloat tokens i =
     (case token tokens i of
        None \<Rightarrow> 0
      | Some t \<Rightarrow> (case pyfloat t of None \<Rightarrow> 0 | Some x \<Rightarrow> x))"

definition readN :: "(string \<Rightarrow> 'c option) \<Rightarrow> string list \<Rightarrow> 'c::zero mesh \<Rightarrow> 'c mesh" where
  "readN pyfloat tokens st =
     (if length tokens < 4 then st
      else if tokens ! 2 \<noteq> ''loc'' then st
      else case py_int (tokens ! 3) of
        None \<Rightarrow> st
      | Some node_number \<Rightarrow>
          if node_number \<le> 0 then st
          else let x = float_token pyfloat tokens 6;
                   y = float_token pyfloat tokens 7;
                   z = float_token pyfloat tokens 8
               in st\<lparr>global_n := AList.update node_number (x, y, z) (global_n st)\<rparr>)"

fun append_ints :: "string list \<Rightarrow> int list \<Rightarrow> int list option" where
  "append_ints [] element_data = Some element_data"
| "append_ints (t # ts) element_data =
     (case py_int t of None \<Rightarrow> None | Some v \<Rightarrow> append_ints ts (element_data @ [v]))"

definition readEN :: "string list \<Rightarrow> 'c mesh \<Rightarrow> error + 'c mesh" where
  "readEN tokens st =
     (if length tokens < 4 then Inr st
      else if tokens ! 2 = ''attr'' then
        (let element_mat = (case int_token tokens 4 of Some v \<Rightarrow> v | None \<Rightarrow> local_current_mat);
             element_type = (case int_token tokens 5 of Some v \<Rightarrow> v | None \<Rightarrow> local_current_type);
             element_real = (case int_token tokens 6 of Some v \<Rightarrow> v | None \<Rightarrow> local_current_real)
         in case (case int_token tokens 9 of Some v \<Rightarrow> Some v | None \<Rightarrow> current_element st) of
              None \<Rightarrow> Inl NameError
            | Some element_number \<Rightarrow>
                let element_data =
                      (case map_of (global_e st) element_number of
                         Some old \<Rightarrow>
                           if length old \<ge> 3
                           then old[0 := element_mat, 1 := element_real, 2 := element_type]
                           else [element_mat, element_real, element_type]
                       | None \<Rightarrow> [element_mat, element_real, element_type])
                in Inr (st\<lparr>current_element := Some element_number,
                           global_e := AList.update element_number element_data (global_e st)\<rparr>))
      else if tokens ! 2 = ''node'' then
        (case current_element st of
           None \<Rightarrow> Inl NameError
         | Some ce \<Rightarrow>
             let element_data =
                   (case map_of (global_e st) ce of
                      Some old \<Rightarrow> old
                    | None \<Rightarrow> [local_current_mat, local_current_real, local_current_type])
             in case append_ints (drop 4 tokens) element_data of
                  None \<Rightarrow> Inr st
                | Some element_data' \<Rightarrow>
                    Inr (st\<lparr>global_e := AList.update ce element_data' (global_e st)\<rparr>))
      else Inr st)"

type_synonym form = "string \<times> int \<times> int"

definition scan_form_char :: "char \<Rightarrow> string \<times> string \<times> string \<times> string \<Rightarrow> string \<times> string \<times> string \<times> string" where
  "scan_form_char c acc =
     (case acc of (raw_count, str_type, raw_identifier1, raw_identifier2) \<Rightarrow>
        if length str_type = 0 \<and> isdigit c then (raw_count @ [c], str_type, raw_identifier1, raw_identifier2)
        else if length raw_identifier1 = 0 \<and> \<not> isdigit c then (raw_count, str_type @ [c], raw_identifier1, raw_identifier2)
        else if length raw_identifier2 = 0 \<and> c \<noteq> CHR ''.'' then (raw_count, str_type, raw_identifier1 @ [c], raw_identifier2)
        else (raw_count, str_type, raw_identifier1, raw_identifier2 @ [c]))"

definition parse_form :: "string \<Rightarrow> form list" where
  "parse_form raw_form =
     (case fold scan_form_char raw_form ([], [], [], []) of
        (raw_count, str_type, raw_identifier1, raw_identifier2) \<Rightarrow>
          (case py_int raw_count of
             None \<Rightarrow> []
           | Some count \<Rightarrow>
               (case py_int raw_identifier1 of
                  None \<Rightarrow> []
                | Some identifier1 \<Rightarrow>
                    if length raw_identifier2 > 0 then
                      (case py_int (strip_dots raw_identifier2) of
                         None \<Rightarrow> []
                       | Some identifier2 \<Rightarrow> replicate (nat count) (str_type, identifier1, identifier2))
                    else replicate (nat count) (str_type, identifier1, 0))))"

definition detectFormat :: "string \<Rightarrow> form list" where
  "detectFormat line =
     (if length line < 3 then []
      else let r1 = find_char (CHR ''('') line;
               r2 = rfind_char (CHR '')'') line;
               r2 = (if r2 < 0 then int (length line) else r2);
               line_split = split (CHR '','') (py_slice line (r1 + 1) r2)
           in concat (map parse_form line_split))"

definition width :: "form list \<Rightarrow> nat \<Rightarrow> int" where
  "width forms i = fst (snd (forms ! i))"

definition float_field :: "(string \<Rightarrow> 'c option) \<Rightarrow> string \<Rightarrow> int \<Rightarrow> int \<Rightarrow> 'c::zero" where
  "float_field pyfloat node_line a b =
     (case pyfloat (py_slice node_line a b) of None \<Rightarrow> 0 | Some x \<Rightarrow> x)"

fun readNBLOCK_loop ::
  "(string \<Rightarrow> 'c option) \<Rightarrow> form list \<Rightarrow> string list \<Rightarrow> 'c::zero mesh \<Rightarrow> error + ('c mesh \<times> string list)" where
  "readNBLOCK_loop pyfloat forms [] st = Inr (st, [])"
| "readNBLOCK_loop pyfloat forms (node_line # rest) st =
     (if length node_line = 0 then Inr (st, rest)
      else case strip node_line of
        [] \<Rightarrow> Inl IndexError
      | c # cs \<Rightarrow>
          if lower_char c = CHR ''n'' then Inr (st, rest)
          else case py_int (py_slice node_line 0 (width forms 0)) of
            None \<Rightarrow> readNBLOCK_loop pyfloat forms rest st
          | Some node_number \<Rightarrow>
              let start_x = width forms 0 + width forms 1 + width forms 2;
                  start_y = start_x + width forms 3;
                  start_z = start_y + width forms 4;
                  end_z = start_z + width forms 5;
                  x = float_field pyfloat node_line start_x start_y;
                  y = float_field pyfloat node_line start_y start_z;
                  z = float_field pyfloat node_line start_z end_z
              in readNBLOCK_loop pyfloat forms rest
                   (st\<lparr>global_n := AList.update node_number (x, y, z) (global_n st)\<rparr>))"

definition readNBLOCK ::
  "(string \<Rightarrow> 'c option) \<Rightarrow> string list \<Rightarrow> string list \<Rightarrow> 'c::zero mesh \<Rightarrow> error + ('c mesh \<times> string list)" where
  "readNBLOCK pyfloat tokens filehandle st =
     (case readline filehandle of (format_line, rest) \<Rightarrow>
        let forms = detectFormat format_line
        in if length forms < 6 then Inr (st, rest)
           else readNBLOCK_loop pyfloat forms rest st)"

text \<open>
  \<^verbatim>\<open>readEBLOCK\<close>. The locals \<^verbatim>\<open>field\<close> and \<^verbatim>\<open>end\<close> are assigned inside \<^verbatim>\<open>try\<close> blocks and read
  after them, so after a failed conversion they hold what the last successful one left (from
  an earlier field or an earlier record), and reading one that was never assigned raises
  \<^verbatim>\<open>UnboundLocalError\<close>.
\<close>

record eblock_locals =
  field_var :: "int option"
  end_var :: "int option"

fun solid_fields ::
  "form list \<Rightarrow> string \<Rightarrow> nat list \<Rightarrow> int \<Rightarrow> int list \<Rightarrow> eblock_locals \<Rightarrow>
   error + (int list \<times> eblock_locals)" where
  "solid_fields forms element_line [] start field_list loc = Inr (field_list, loc)"
| "solid_fields forms element_line (i # is) start field_list loc =
     (let loc1 =
            (if i < length forms then
               (let e = start + width forms i
                in case py_int (py_slice element_line start e) of
                     None \<Rightarrow> loc\<lparr>end_var := Some e\<rparr>
                   | Some v \<Rightarrow> loc\<lparr>end_var := Some e, field_var := Some v\<rparr>)
             else loc)
      in case field_var loc1 of
           None \<Rightarrow> Inl UnboundLocalError
         | Some v \<Rightarrow>
             (case end_var loc1 of
                None \<Rightarrow> Inl UnboundLocalError
              | Some e \<Rightarrow> solid_fields forms element_line is e (field_list @ [v]) loc1))"

text \<open>
  The two loops that read the node numbers beyond the first line. \<^verbatim>\<open>++field_count\<close> is the
  unary plus applied twice: \<^verbatim>\<open>field_count\<close> keeps its value, and so does \<^verbatim>\<open>start\<close>. The loops
  can run forever, so they take fuel and \<open>None\<close> means that the fuel ran out.
\<close>

fun solid_more_fields ::
  "nat \<Rightarrow> form list \<Rightarrow> nat \<Rightarrow> string \<Rightarrow> int list \<Rightarrow> eblock_locals \<Rightarrow>
   (int list \<times> eblock_locals) option" where
  "solid_more_fields 0 forms field_count element_line field_list loc = None"
| "solid_more_fields (Suc fuel) forms field_count element_line field_list loc =
     (if field_count < length forms then
        (let start = 0; e = start + width forms field_count
         in case py_int (py_slice element_line start e) of
              None \<Rightarrow> Some (field_list, loc\<lparr>end_var := Some e\<rparr>)
            | Some v \<Rightarrow>
                solid_more_fields fuel forms field_count element_line (field_list @ [v])
                  (loc\<lparr>end_var := Some e, field_var := Some v\<rparr>))
      else Some (field_list, loc))"

fun solid_more_lines ::
  "nat \<Rightarrow> form list \<Rightarrow> nat \<Rightarrow> int list \<Rightarrow> eblock_locals \<Rightarrow> string list \<Rightarrow>
   (int list \<times> eblock_locals \<times> string list) option" where
  "solid_more_lines 0 forms field_count field_list loc filehandle = None"
| "solid_more_lines (Suc fuel) forms field_count field_list loc filehandle =
     (if int field_count < field_list ! 8 + 11 then
        (case readline filehandle of (element_line, rest) \<Rightarrow>
           (case solid_more_fields fuel forms field_count element_line field_list loc of
              None \<Rightarrow> None
            | Some (field_list', loc') \<Rightarrow> solid_more_lines fuel forms field_count field_list' loc' rest))
      else Some (field_list, loc, filehandle))"

fun nonsolid_fields :: "form list \<Rightarrow> string \<Rightarrow> nat list \<Rightarrow> int \<Rightarrow> int list \<Rightarrow> int list option" where
  "nonsolid_fields forms element_line [] start field_list = Some field_list"
| "nonsolid_fields forms element_line (i # is) start field_list =
     (if i < length forms then
        (let e = start + width forms i
         in case py_int (py_slice element_line start e) of
              None \<Rightarrow> None
            | Some v \<Rightarrow> nonsolid_fields forms element_line is e (field_list @ [v]))
      else None)"

fun readEBLOCK_loop ::
  "nat \<Rightarrow> bool \<Rightarrow> int \<Rightarrow> form list \<Rightarrow> eblock_locals \<Rightarrow> string list \<Rightarrow> 'c mesh \<Rightarrow>
   (error + ('c mesh \<times> string list)) option" where
  "readEBLOCK_loop 0 isSOLID Num_fields forms loc filehandle st = None"
| "readEBLOCK_loop (Suc fuel) isSOLID Num_fields forms loc filehandle st =
     (case readline filehandle of (element_line, rest) \<Rightarrow>
        if take 1 (strip element_line) = ''-'' then Some (Inr (st, rest))
        else if isSOLID then
          (case solid_fields forms element_line [0..<nat Num_fields] 0 [] loc of
             Inl err \<Rightarrow> Some (Inl err)
           | Inr (field_list, loc1) \<Rightarrow>
               let field_count = length field_list
               in if field_count < 8 then Some (Inr (st, rest))
                  else if field_count < 9 then Some (Inl IndexError)
                  else
                    (case solid_more_lines fuel forms field_count field_list loc1 rest of
                       None \<Rightarrow> None
                     | Some (field_list2, loc2, rest2) \<Rightarrow>
                         if length field_list2 < 11 then Some (Inr (st, rest2))
                         else
                           let element_mat = field_list2 ! 0; element_type = field_list2 ! 1;
                               element_real = field_list2 ! 2; element_number = field_list2 ! 10;
                               element_nodes = drop 11 field_list2;
                               element_data = [element_mat, element_real, element_type] @ element_nodes
                           in readEBLOCK_loop fuel isSOLID Num_fields forms loc2 rest2
                                (st\<lparr>global_e := AList.update element_number element_data (global_e st)\<rparr>)))
        else
          (case nonsolid_fields forms element_line [0..<nat Num_fields] 0 [] of
             None \<Rightarrow> Some (Inr (st, rest))
           | Some field_list \<Rightarrow>
               if length field_list < 4 then Some (Inr (st, rest))
               else
                 let element_number = field_list ! 0; element_type = field_list ! 1;
                     element_real = field_list ! 2; element_mat = field_list ! 3;
                     element_nodes = drop 5 field_list;
                     element_data = [element_mat, element_real, element_type] @ element_nodes
                 in readEBLOCK_loop fuel isSOLID Num_fields forms loc rest
                      (st\<lparr>global_e := AList.update element_number element_data (global_e st)\<rparr>)))"

definition readEBLOCK ::
  "nat \<Rightarrow> string list \<Rightarrow> string list \<Rightarrow> 'c mesh \<Rightarrow> (error + ('c mesh \<times> string list)) option" where
  "readEBLOCK fuel tokens filehandle st =
     (if length tokens < 3 then Some (Inr (st, filehandle))
      else case py_int (tokens ! 1) of
        None \<Rightarrow> Some (Inr (st, filehandle))
      | Some Num_fields \<Rightarrow>
          let isSOLID = (tokens ! 2 = ''solid'')
          in case readline filehandle of (format_line, rest) \<Rightarrow>
               let forms = detectFormat format_line
               in if (isSOLID \<and> length forms < 12) \<or> length forms < 6 then Some (Inr (st, rest))
                  else readEBLOCK_loop fuel isSOLID Num_fields forms
                         \<lparr>field_var = None, end_var = None\<rparr> rest st)"

text \<open>
  \<^verbatim>\<open>readET\<close>. When the id token is empty only \<^verbatim>\<open>et_number\<close> is assigned; \<^verbatim>\<open>et_type\<close> is
  assigned in the other branch alone, and \<^verbatim>\<open>global_et[et_number] = et_type\<close> reads it.
\<close>

definition max_key :: "(int \<times> 'a) list \<Rightarrow> int" where
  "max_key d = fold max (map fst (tl d)) (fst (hd d))"

definition readET :: "string list \<Rightarrow> 'c mesh \<Rightarrow> error + 'c mesh" where
  "readET tokens st =
     (if length tokens < 3 then Inr st
      else case (if tokens ! 1 = []
                 then (let max_et = (if length (global_et st) > 0 then max_key (global_et st) else 0)
                       in Some (max_et + 1, None))
                 else (case py_int (tokens ! 1) of
                         None \<Rightarrow> None
                       | Some n \<Rightarrow>
                           (case py_int (tokens ! 2) of
                              None \<Rightarrow> None
                            | Some t \<Rightarrow> Some (n, Some t)))) of
        None \<Rightarrow> Inr st
      | Some (et_number, et_type) \<Rightarrow>
          (case et_type of
             None \<Rightarrow> Inl UnboundLocalError
           | Some t \<Rightarrow>
               Inr (st\<lparr>global_et := AList.update et_number t (global_et st),
                       current_type := Some et_number\<rparr>)))"

definition readTYPE :: "string list \<Rightarrow> 'c mesh \<Rightarrow> 'c mesh" where
  "readTYPE tokens st =
     (case int_token tokens 1 of None \<Rightarrow> st | Some v \<Rightarrow> st\<lparr>current_type := Some v\<rparr>)"

definition readMAT :: "string list \<Rightarrow> 'c mesh \<Rightarrow> 'c mesh" where
  "readMAT tokens st =
     (case int_token tokens 1 of None \<Rightarrow> st | Some v \<Rightarrow> st\<lparr>current_mat := Some v\<rparr>)"

definition readREAL :: "string list \<Rightarrow> 'c mesh \<Rightarrow> 'c mesh" where
  "readREAL tokens st =
     (case int_token tokens 1 of None \<Rightarrow> st | Some v \<Rightarrow> st\<lparr>current_real := Some v\<rparr>)"

text \<open>
  \<^verbatim>\<open>parseCommand\<close> and the loop of \<^verbatim>\<open>read3DMesh\<close>. The loop takes fuel because the element
  block it may enter can run forever; \<open>None\<close> means that the fuel ran out. The module's
  names are given as they are when the call starts (\<open>module_globals\<close>: none bound yet).
\<close>

definition tokenize :: "string \<Rightarrow> string list" where
  "tokenize first_line = map (\<lambda>t. lower (strip t)) (split (CHR '','') first_line)"

definition parseCommand ::
  "(string \<Rightarrow> 'c option) \<Rightarrow> nat \<Rightarrow> string \<Rightarrow> string list \<Rightarrow> 'c::zero mesh \<Rightarrow>
   (error + ('c mesh \<times> string list)) option" where
  "parseCommand pyfloat fuel first_line filehandle st =
     (let tokens = tokenize first_line; command = tokens ! 0
      in if command = ''n'' then Some (Inr (readN pyfloat tokens st, filehandle))
         else if command = ''en'' then
           Some (case readEN tokens st of Inl err \<Rightarrow> Inl err | Inr st' \<Rightarrow> Inr (st', filehandle))
         else if command = ''nblock'' then Some (readNBLOCK pyfloat tokens filehandle st)
         else if command = ''eblock'' then readEBLOCK fuel tokens filehandle st
         else if command = ''et'' then
           Some (case readET tokens st of Inl err \<Rightarrow> Inl err | Inr st' \<Rightarrow> Inr (st', filehandle))
         else if command = ''type'' then Some (Inr (readTYPE tokens st, filehandle))
         else if command = ''mat'' then Some (Inr (readMAT tokens st, filehandle))
         else if command = ''real'' then Some (Inr (readREAL tokens st, filehandle))
         else Some (Inr (st, filehandle)))"

fun read_loop ::
  "(string \<Rightarrow> 'c option) \<Rightarrow> nat \<Rightarrow> string list \<Rightarrow> 'c::zero mesh \<Rightarrow> (error + 'c mesh) option" where
  "read_loop pyfloat 0 filehandle st = None"
| "read_loop pyfloat (Suc fuel) filehandle st =
     (case readline filehandle of (line, rest) \<Rightarrow>
        if line = [] then Some (Inr st)
        else case parseCommand pyfloat fuel line rest st of
          None \<Rightarrow> None
        | Some (Inl err) \<Rightarrow> Some (Inl err)
        | Some (Inr (st', rest')) \<Rightarrow> read_loop pyfloat fuel rest' st')"

definition module_globals :: "int option \<times> int option \<times> int option \<times> int option" where
  "module_globals = (None, None, None, None)"

definition read3DMesh ::
  "(string \<Rightarrow> 'c option) \<Rightarrow> nat \<Rightarrow> int option \<times> int option \<times> int option \<times> int option \<Rightarrow>
   string \<Rightarrow> (error + 'c::zero mesh) option" where
  "read3DMesh pyfloat fuel globals content =
     (case globals of (ce, cm, cr, ct) \<Rightarrow>
        read_loop pyfloat fuel (lines_of content)
          \<lparr>global_et = [], global_e = [], global_n = [],
           current_element = ce, current_mat = cm, current_real = cr, current_type = ct\<rparr>)"

section \<open>The writer: \<^verbatim>\<open>export_cdb.write\<close>\<close>

text \<open>
  \<^verbatim>\<open>write\<close> is modelled from the node dictionary \<^verbatim>\<open>n\<close> and the face lists \<^verbatim>\<open>f\<close> that
  \<^verbatim>\<open>processSelectedObjs\<close> hands it, and returns the text written to the file. \<open>fmt_8i\<close> is
  the conversion \<^verbatim>\<open>%8i\<close> of an integer, \<open>str_int\<close> is \<^verbatim>\<open>%i\<close> and \<^verbatim>\<open>str\<close>.
\<close>

fun str_nat :: "nat \<Rightarrow> string" where
  "str_nat n = (if n < 10 then [''0123456789'' ! n] else str_nat (n div 10) @ [''0123456789'' ! (n mod 10)])"

declare str_nat.simps [simp del]

definition str_int :: "int \<Rightarrow> string" where
  "str_int i = (if i < 0 then CHR ''-'' # str_nat (nat (- i)) else str_nat (nat i))"

definition rjust :: "nat \<Rightarrow> string \<Rightarrow> string" where
  "rjust w s = replicate (w - length s) (CHR '' '') @ s"

definition fmt_8i :: "int \<Rightarrow> string" where
  "fmt_8i i = rjust 8 (str_int i)"

definition four_noded_shell :: "int \<times> int" where "four_noded_shell = (1, 63)"
definition eight_noded_shell :: "int \<times> int" where "eight_noded_shell = (2, 93)"

definition writeHeader :: string where
  "writeHeader = ''/PREP7'' @ [newline] @ ''/TITLE,'' @ [newline]"

definition writeET :: string where
  "writeET = ''ET,'' @ str_int (fst four_noded_shell) @ '','' @ str_int (snd four_noded_shell) @ [newline] @
             ''ET,'' @ str_int (fst eight_noded_shell) @ '','' @ str_int (snd eight_noded_shell) @ [newline]"

definition node_record :: "('c \<Rightarrow> string) \<Rightarrow> int \<times> 'c \<times> 'c \<times> 'c \<Rightarrow> string" where
  "node_record fmt_g nd =
     (case nd of (node, x, y, z) \<Rightarrow>
        fmt_8i node @ fmt_8i 0 @ fmt_8i 0 @ fmt_g x @ fmt_g y @ fmt_g z @ [newline])"

definition writeNBLOCK :: "('c \<Rightarrow> string) \<Rightarrow> (int \<times> 'c \<times> 'c \<times> 'c) list \<Rightarrow> string" where
  "writeNBLOCK fmt_g n =
     ''NBLOCK,6,SOLID'' @ [newline] @ ''(3i8,6g16.9)'' @ [newline] @
     concat (map (node_record fmt_g) n) @
     ''N,R5.3,LOC,-1,'' @ [newline]"

definition element_record :: "int \<Rightarrow> int \<Rightarrow> int \<Rightarrow> face \<Rightarrow> string option" where
  "element_record element_mat element_real element_number face =
     (case (if length face = 4 then Some (fst four_noded_shell, face)
            else if length face = 8 then Some (fst eight_noded_shell, face)
            else if length face = 3 then
              Some (fst four_noded_shell, [face ! 0, face ! 1, face ! 2, face ! 2])
            else if length face = 6 then
              Some (fst eight_noded_shell,
                    [face ! 0, face ! 2, face ! 4, face ! 4, face ! 1, face ! 3, face ! 4, face ! 5])
            else None) of
        None \<Rightarrow> None
      | Some (element_type, nodes) \<Rightarrow>
          Some (concat (map fmt_8i
                  [element_mat, element_type, element_real, 1, 0, 0, 0, 0,
                   int (length nodes), 0, element_number,
                   nodes ! 0, nodes ! 1, nodes ! 2, nodes ! 3]) @
                (if length nodes > 4
                 then concat (map fmt_8i [nodes ! 4, nodes ! 5, nodes ! 6, nodes ! 7]) @ [newline]
                 else [newline])))"

fun write_face_list :: "int \<Rightarrow> int \<Rightarrow> int \<Rightarrow> face list \<Rightarrow> string \<times> int" where
  "write_face_list element_mat element_real element_number [] = ([], element_number)"
| "write_face_list element_mat element_real element_number (face # rest) =
     (case element_record element_mat element_real element_number face of
        None \<Rightarrow> write_face_list element_mat element_real element_number rest
      | Some text \<Rightarrow>
          (case write_face_list element_mat element_real (element_number + 1) rest of
             (following, n) \<Rightarrow> (text @ following, n)))"

fun write_face_lists :: "bool \<Rightarrow> bool \<Rightarrow> int \<Rightarrow> int \<Rightarrow> int \<Rightarrow> face list list \<Rightarrow> string" where
  "write_face_lists inc_mat inc_real element_mat element_real element_number [] = []"
| "write_face_lists inc_mat inc_real element_mat element_real element_number (face_list # rest) =
     (case write_face_list element_mat element_real element_number face_list of
        (text, n) \<Rightarrow>
          text @ write_face_lists inc_mat inc_real
                   (if inc_mat then element_mat + 1 else element_mat)
                   (if inc_real then element_real + 1 else element_real) n rest)"

definition writeEBLOCK :: "face list list \<Rightarrow> int \<Rightarrow> bool \<Rightarrow> int \<Rightarrow> bool \<Rightarrow> string" where
  "writeEBLOCK face_lists init_mat inc_mat init_real inc_real =
     (let face_count = sum_list (map length face_lists)
      in ''EBLOCK,19,SOLID,'' @ str_int (int face_count) @ [newline] @ ''(19i8)'' @ [newline] @
         write_face_lists inc_mat inc_real init_mat init_real 1 face_lists @
         ''-1,'' @ [newline])"

definition writeFINISH :: string where
  "writeFINISH = ''FINISH'' @ [newline]"

definition write_cdb ::
  "('c \<Rightarrow> string) \<Rightarrow> (int \<times> 'c \<times> 'c \<times> 'c) list \<Rightarrow> face list list \<Rightarrow>
   int \<Rightarrow> bool \<Rightarrow> int \<Rightarrow> bool \<Rightarrow> string" where
  "write_cdb fmt_g n f initial_mat increment_mat initial_real increment_real =
     writeHeader @ writeET @ writeNBLOCK fmt_g n @
     writeEBLOCK f initial_mat increment_mat initial_real increment_real @ writeFINISH"

text \<open>
  Concrete inputs for the claims: a cube with corner coordinates \<open>a\<close> and \<open>b\<close> and its six
  quadrilateral faces; a deck with one ten-node element, whose node list continues on a second
  line; a deck that ends after the first record of its element block; an \<^verbatim>\<open>ET\<close> command
  with an empty id.
\<close>

definition cube_nodes :: "'c \<Rightarrow> 'c \<Rightarrow> (int \<times> 'c \<times> 'c \<times> 'c) list" where
  "cube_nodes a b =
     [(1, (a, a, a)), (2, (b, a, a)), (3, (b, b, a)), (4, (a, b, a)),
      (5, (a, a, b)), (6, (b, a, b)), (7, (b, b, b)), (8, (a, b, b))]"

definition cube_faces :: "face list list" where
  "cube_faces = [[[1, 4, 3, 2], [1, 2, 6, 5], [2, 3, 7, 6], [3, 4, 8, 7], [4, 1, 5, 8], [5, 6, 7, 8]]]"

definition record_line :: "int list \<Rightarrow> string" where
  "record_line vs = concat (map fmt_8i vs) @ [newline]"

definition eblock_line :: string where
  "eblock_line = ''EBLOCK,19,SOLID,1'' @ [newline]"

definition format_19i8 :: string where
  "format_19i8 = ''(19i8)'' @ [newline]"

definition ten_node_first :: string where
  "ten_node_first = record_line [1, 1, 1, 1, 0, 0, 0, 0, 10, 0, 1, 1, 2, 3, 4, 5, 6, 7, 8]"

definition ten_node_second :: string where
  "ten_node_second = record_line [9, 10]"

definition end_line :: string where
  "end_line = ''-1,'' @ [newline]"

definition ten_node_deck :: string where
  "ten_node_deck = eblock_line @ format_19i8 @ ten_node_first @ ten_node_second @ end_line"

definition four_node_record :: string where
  "four_node_record = record_line [1, 1, 1, 1, 0, 0, 0, 0, 4, 0, 1, 1, 2, 3, 4]"

definition et_command :: string where
  "et_command = ''ET,,186'' @ [newline]"

definition truncated_deck :: string where
  "truncated_deck = eblock_line @ format_19i8 @ four_node_record"

text \<open>
  For the round trip: \<open>zero_text\<close> and \<open>one_text\<close> are what \<^verbatim>\<open>"%16.9g" % 0.0\<close> and
  \<^verbatim>\<open>"%16.9g" % 1.0\<close> give in Python, \<open>corner_fmt\<close> formats the two corner values of a cube
  whose coordinates are booleans, \<open>parsed\<close> is a coordinate as \<^verbatim>\<open>readNBLOCK\<close> converts it,
  \<open>cube_elements\<close> and \<open>cube_outer\<close> are the element table read back from the cube and its
  outer faces.
\<close>

definition zero_text :: string where "zero_text = ''               0''"
definition one_text :: string where "one_text = ''               1''"
definition corner_fmt :: "bool \<Rightarrow> string" where
  "corner_fmt c = (if c then one_text else zero_text)"
definition parsed :: "(string \<Rightarrow> 'c option) \<Rightarrow> string \<Rightarrow> 'c::zero" where
  "parsed pyfloat s = (case pyfloat s of None \<Rightarrow> 0 | Some x \<Rightarrow> x)"


definition cube_elements :: "(int \<times> element) list" where
  "cube_elements =
     [(1, [1, 1, 1, 1, 4, 3, 2, 2, 2, 2, 2]),
      (2, [1, 1, 1, 1, 2, 6, 5, 5, 5, 5, 5]),
      (3, [1, 1, 1, 2, 3, 7, 6, 6, 6, 6, 6]),
      (4, [1, 1, 1, 3, 4, 8, 7, 7, 7, 7, 7]),
      (5, [1, 1, 1, 4, 1, 5, 8, 8, 8, 8, 8]),
      (6, [1, 1, 1, 5, 6, 7, 8, 8, 8, 8, 8])]"

definition cube_outer :: "face list" where
  "cube_outer = [[1, 4, 3, 2], [1, 2, 6, 5], [2, 3, 7, 6], [3, 4, 8, 7], [1, 5, 8, 4], [5, 6, 7, 8]]"

section \<open>Auxiliary notions for the proofs\<close>

text \<open>
  What \<^verbatim>\<open>get_all_faces\<close> keeps true of \<^verbatim>\<open>counted_faces\<close>: keys are not repeated (it is a
  dictionary of dictionaries) and no face is the empty tuple. \<open>outer_filter\<close> names the test
  of \<^verbatim>\<open>get_outer_faces\<close> applied to the keys of one group.
\<close>

definition wf_counted :: "counted \<Rightarrow> bool" where
  "wf_counted c \<longleftrightarrow> distinct (map fst c) \<and>
     (\<forall>g d. map_of c g = Some d \<longrightarrow> distinct (map fst d) \<and> map_of d [] = None)"

definition outer_filter :: "bool \<Rightarrow> (face \<times> nat) list \<Rightarrow> face list" where
  "outer_filter rd d = filter (\<lambda>f. map_of d (inverse_face f) = None \<and> (\<not> rd \<or> map_of d f = Some 1)) (map fst d)"

text \<open>
  A concrete mesh for the classification: two hexahedra of family 45, the second on top of the
  first, so that the face \<open>(5, 6, 7, 8)\<close> of the first and the face \<open>(5, 8, 7, 6)\<close> of the
  second are one quadrilateral wound both ways, and a shell element of family 63 that repeats
  the face \<open>(1, 2, 6, 5)\<close> of the first; \<open>abutting_counts\<close> is what \<^verbatim>\<open>get_all_faces\<close> counts
  for them.
\<close>

definition abutting_elements :: "(int \<times> element) list" where
  "abutting_elements =
     [(1, [1, 1, 1, 1, 2, 3, 4, 5, 6, 7, 8]),
      (2, [1, 1, 1, 5, 6, 7, 8, 9, 10, 11, 12]),
      (3, [1, 1, 2, 1, 2, 6, 5])]"

definition abutting_types :: "(int \<times> int) list" where
  "abutting_types = [(1, 45), (2, 63)]"

definition abutting_counts :: "(face \<times> nat) list" where
  "abutting_counts =
     [([1, 4, 3, 2], 1), ([1, 2, 6, 5], 2), ([2, 3, 7, 6], 1), ([3, 4, 8, 7], 1),
      ([1, 5, 8, 4], 1), ([5, 6, 7, 8], 1), ([5, 8, 7, 6], 1), ([5, 6, 10, 9], 1),
      ([6, 7, 11, 10], 1), ([7, 8, 12, 11], 1), ([5, 9, 12, 8], 1), ([9, 10, 11, 12], 1)]"


text \<open>
  For the counts: \<open>stored_count\<close> and \<open>group_count\<close> read a counter of \<^verbatim>\<open>counted_faces\<close> (0 when
  the face or the group is not there), and \<open>generated_faces\<close> lists, in the order of the loop
  of \<^verbatim>\<open>get_all_faces\<close>, every face that the elements of one group contribute.
\<close>

definition stored_count :: "(face \<times> nat) list \<Rightarrow> face \<Rightarrow> nat" where
  "stored_count d f = (case map_of d f of None \<Rightarrow> 0 | Some n \<Rightarrow> n)"

definition group_count :: "counted \<Rightarrow> group \<Rightarrow> face \<Rightarrow> nat" where
  "group_count c g f = (case map_of c g of None \<Rightarrow> 0 | Some d \<Rightarrow> stored_count d f)"

fun generated_faces :: "(int \<times> int) list \<Rightarrow> element list \<Rightarrow> int option \<Rightarrow> group \<Rightarrow> face list" where
  "generated_faces element_types [] v13 g = []"
| "generated_faces element_types (e # es) v13 g =
     (case element_faces element_types v13 e of
        Inl err \<Rightarrow> []
      | Inr (None, v13') \<Rightarrow> generated_faces element_types es v13' g
      | Inr (Some fs, v13') \<Rightarrow>
          (if (e ! 0, e ! 1) = g then fs else []) @ generated_faces element_types es v13' g)"


text \<open>
  For \<^verbatim>\<open>renumber\<close>: \<open>first_seen xs\<close> is \<open>xs\<close> without repetitions, each entry at the place of
  its first occurrence; \<open>walk_coords\<close> is the sequence of coordinates \<^verbatim>\<open>global_n[v]\<close> met when
  the faces of a group are walked in order; \<open>face_nodes\<close> is the set of node ids in the faces
  of all groups; \<open>renum_inv\<close> is what the loop keeps true of its state.
\<close>

fun first_seen_from :: "'a list \<Rightarrow> 'a list \<Rightarrow> 'a list" where
  "first_seen_from seen [] = seen"
| "first_seen_from seen (x # xs) = first_seen_from (if x \<in> set seen then seen else seen @ [x]) xs"

definition first_seen :: "'a list \<Rightarrow> 'a list" where
  "first_seen xs = first_seen_from [] xs"

definition walk_coords :: "(int \<times> 'v) list \<Rightarrow> face list \<Rightarrow> 'v list" where
  "walk_coords node_table fs = List.map_filter (map_of node_table) (concat fs)"

definition renum_inv :: "'v renum \<Rightarrow> bool" where
  "renum_inv st \<longleftrightarrow> index_number st = length (verts st) \<and> distinct (verts st) \<and>
     (\<forall>c i. vert_coords st c = Some i \<longleftrightarrow> (i < length (verts st) \<and> verts st ! i = c))"

definition face_nodes :: "outer \<Rightarrow> int set" where
  "face_nodes global_faces = set (concat (concat (map snd global_faces)))"

section \<open>Properties of \<^verbatim>\<open>order_face\<close> and \<^verbatim>\<open>inverse_face\<close>\<close>

lemma min_index_fold:
  assumes "k < length (f :: int list)"
  defines "m \<equiv> fold (\<lambda>i m. if f ! (i + 1) < f ! m then i + 1 else m) [0..<k] 0"
  shows "m \<le> k \<and> (\<forall>j\<le>k. f ! m \<le> f ! j) \<and> (\<forall>j<m. f ! m < f ! j)"
  using assms(1) unfolding m_def
proof (induction k)
  case 0
  then show ?case by simp
next
  case (Suc k)
  define m' where "m' = fold (\<lambda>i m. if f ! (i + 1) < f ! m then i + 1 else m) [0..<k] 0"
  from Suc have IH: "m' \<le> k" "\<forall>j\<le>k. f ! m' \<le> f ! j" "\<forall>j<m'. f ! m' < f ! j"
    by (simp_all add: m'_def)
  have step: "fold (\<lambda>i m. if f ! (i + 1) < f ! m then i + 1 else m) [0..<Suc k] 0
      = (if f ! (k + 1) < f ! m' then k + 1 else m')"
    by (simp add: m'_def)
  show ?case
  proof (cases "f ! (k + 1) < f ! m'")
    case True
    have a: "\<forall>j\<le>Suc k. f ! Suc k \<le> f ! j"
    proof (intro allI impI)
      fix j assume "j \<le> Suc k"
      then consider "j = Suc k" | "j \<le> k" by linarith
      then show "f ! Suc k \<le> f ! j"
      proof cases
        case 1 then show ?thesis by simp
      next
        case 2 then have "f ! m' \<le> f ! j" using IH(2) by blast
        with True show ?thesis by simp
      qed
    qed
    have b: "\<forall>j<Suc k. f ! Suc k < f ! j"
    proof (intro allI impI)
      fix j assume "j < Suc k"
      then have "f ! m' \<le> f ! j" using IH(2) by simp
      with True show "f ! Suc k < f ! j" by simp
    qed
    show ?thesis unfolding step using True a b by simp
  next
    case False
    have a: "\<forall>j\<le>Suc k. f ! m' \<le> f ! j"
    proof (intro allI impI)
      fix j assume "j \<le> Suc k"
      then consider "j = Suc k" | "j \<le> k" by linarith
      then show "f ! m' \<le> f ! j"
      proof cases
        case 1 then show ?thesis using False by simp
      next
        case 2 then show ?thesis using IH(2) by blast
      qed
    qed
    show ?thesis unfolding step using False a IH(1,3) by simp
  qed
qed

lemma min_index_less: "f \<noteq> [] \<Longrightarrow> min_index f < length f"
  using min_index_fold[of "length f - 1" f] by (cases f) (auto simp: min_index_def)

lemma min_index_nth_le: "j < length f \<Longrightarrow> f ! min_index f \<le> f ! j"
  using min_index_fold[of "length f - 1" f] by (cases "f = []") (auto simp: min_index_def)

lemma min_index_le: "x \<in> set f \<Longrightarrow> f ! min_index f \<le> x"
  by (auto simp: in_set_conv_nth min_index_nth_le)

lemma min_index_first: "j < min_index (f::int list) \<Longrightarrow> f ! min_index f < f ! j"
  using min_index_fold[of "length f - 1" f] by (cases "f = []") (auto simp: min_index_def)


lemma order_face_rotate: "order_face f = rotate (min_index f) f"
proof (cases "f = []")
  case True then show ?thesis by (simp add: order_face_def)
next
  case False
  then have m: "min_index f < length f" by (rule min_index_less)
  show ?thesis
  proof (rule nth_equalityI)
    show "length (order_face f) = length (rotate (min_index f) f)"
      by (simp add: order_face_def)
  next
    fix i assume "i < length (order_face f)"
    then have i: "i < length f" by (simp add: order_face_def split: if_splits)
    have "(min_index f + i) mod length f = (if min_index f + i \<ge> length f then min_index f + i - length f else min_index f + i)"
      using m i by (simp add: mod_if)
    then show "order_face f ! i = rotate (min_index f) f ! i"
      using i False by (simp add: order_face_def nth_rotate Let_def)
  qed
qed

lemma inverse_face_fold:
  "k < length f \<Longrightarrow> fold (\<lambda>i acc. acc @ [f ! (length f - i - 1)]) [0..<k] acc = acc @ rev (drop (length f - k) f)"
proof (induction k arbitrary: acc)
  case 0 then show ?case by simp
next
  case (Suc k)
  have "drop (length f - Suc k) f = f ! (length f - Suc k) # drop (Suc (length f - Suc k)) f"
    using Suc.prems by (intro Cons_nth_drop_Suc[symmetric]) simp
  moreover have "Suc (length f - Suc k) = length f - k" using Suc.prems by simp
  ultimately show ?case using Suc by simp
qed

lemma inverse_face_eq: "f \<noteq> [] \<Longrightarrow> inverse_face f = hd f # rev (tl f)"
  using inverse_face_fold[of "length f - 1" f "[f ! 0]"]
  by (cases f) (simp_all add: inverse_face_def)

lemma order_face_fixed: "f \<noteq> [] \<Longrightarrow> \<forall>x\<in>set f. hd f \<le> x \<Longrightarrow> order_face f = f"
proof -
  assume ne: "f \<noteq> []" and mn: "\<forall>x\<in>set f. hd f \<le> x"
  have "min_index f = 0"
  proof (rule ccontr)
    assume "min_index f \<noteq> 0"
    then have "f ! min_index f < f ! 0" using min_index_first[of 0 f] by simp
    moreover have "f ! 0 \<le> f ! min_index f" using mn ne min_index_less[OF ne] by (simp add: hd_conv_nth)
    ultimately show False by simp
  qed
  then show ?thesis by (simp add: order_face_rotate)
qed

lemma unique_min_rotation:
  fixes f :: "int list"
  assumes ne: "f \<noteq> []" and uniq: "\<forall>i<length f. \<forall>j<length f. f ! i = f ! j \<and> f ! i = Min (set f) \<longrightarrow> i = j"
  shows "order_face (rotate n f) = order_face f"
proof -
  let ?r = "rotate n f"
  have rne: "?r \<noteq> []" using ne by simp
  have mf: "f ! min_index f = Min (set f)"
    using ne min_index_less[OF ne] by (intro Min_eqI[symmetric]) (auto simp: min_index_le)
  have mr: "?r ! min_index ?r = Min (set f)"
    using rne min_index_less[OF rne] min_index_le[of _ ?r]
    by (intro Min_eqI[symmetric]) (auto simp del: length_rotate dest: nth_mem)
  have "?r ! min_index ?r = f ! ((n + min_index ?r) mod length f)"
    using min_index_less[OF rne] by (simp add: nth_rotate)
  with mr mf have "f ! ((n + min_index ?r) mod length f) = f ! min_index f" by simp
  moreover have "(n + min_index ?r) mod length f < length f" using ne by simp
  ultimately have "(n + min_index ?r) mod length f = min_index f"
    using uniq min_index_less[OF ne] mf by metis
  then have "rotate (min_index ?r + n) f = rotate (min_index f) f"
    by (metis add.commute rotate_conv_mod)
  then show ?thesis by (simp add: order_face_rotate rotate_rotate)
qed

section \<open>Properties of the face counting\<close>

lemma count_list_one_unique:
  "count_list xs x = 1 \<Longrightarrow> i < length xs \<Longrightarrow> j < length xs \<Longrightarrow> xs ! i = x \<Longrightarrow> xs ! j = x \<Longrightarrow> i = j"
proof (induction xs arbitrary: i j)
  case Nil then show ?case by simp
next
  case (Cons a xs)
  show ?case
  proof (cases "a = x")
    case True
    with Cons.prems(1) have "x \<notin> set xs" by (simp add: count_list_0_iff)
    then have "\<And>k. k < length (a # xs) \<Longrightarrow> (a # xs) ! k = x \<Longrightarrow> k = 0"
      by (auto simp: nth_Cons' split: if_splits)
    with Cons.prems show ?thesis by metis
  next
    case False
    from False Cons.prems(4) have "i \<noteq> 0" by (cases i) auto
    moreover from False Cons.prems(5) have "j \<noteq> 0" by (cases j) auto
    ultimately obtain i' j' where "i = Suc i'" "j = Suc j'" by (metis not0_implies_Suc)
    with Cons.prems False Cons.IH[of i' j'] show ?thesis by simp
  qed
qed

lemma order_face_Nil_iff: "order_face f = [] \<longleftrightarrow> f = []"
  by (simp add: order_face_def)

lemma faces_on_nonempty:
  "[] \<notin> set (faces_on_3triangle a1 a2 a3)"
  "[] \<notin> set (faces_on_4rectangle a1 a2 a3 a4)"
  "[] \<notin> set (faces_on_6triangle a1 a2 a3 a4 a5 a6)"
  "[] \<notin> set (faces_on_8rectangle a1 a2 a3 a4 a5 a6 a7 a8)"
  "[] \<notin> set (faces_on_6wedge a1 a2 a3 a4 a5 a6)"
  "[] \<notin> set (faces_on_5pyramid a1 a2 a3 a4 a5)"
  "[] \<notin> set (faces_on_4tetrahedral a1 a2 a3 a4)"
  "[] \<notin> set (faces_on_8hexahedral a1 a2 a3 a4 a5 a6 a7 a8)"
  "[] \<notin> set (faces_on_13pyramid a1 a2 a3 a4 a5 a6 a7 a8 a9 a10 a11 a12 a13)"
  "[] \<notin> set (faces_on_10tetrahedral a1 a2 a3 a4 a5 a6 a7 a8 a9 a10)"
  "[] \<notin> set (faces_on_20hexahedral a1 a2 a3 a4 a5 a6 a7 a8 a9 a10 a11 a12 a13 a14 a15 a16 a17 a18 a19 a20)"
  by (simp_all add: order_face_Nil_iff faces_on_3triangle_def faces_on_4rectangle_def
      faces_on_6triangle_def faces_on_8rectangle_def faces_on_6wedge_def faces_on_5pyramid_def
      faces_on_4tetrahedral_def faces_on_8hexahedral_def
      faces_on_13pyramid_def faces_on_10tetrahedral_def faces_on_20hexahedral_def eq_commute[of "[]"])

lemma family_faces_nonempty:
  "shell_faces v13 e = Inr (Some fs, v') \<Longrightarrow> [] \<notin> set fs"
  "midside_shell_faces v13 e = Inr (Some fs, v') \<Longrightarrow> [] \<notin> set fs"
  "solid_faces v13 e = Inr (Some fs, v') \<Longrightarrow> [] \<notin> set fs"
  "midside_solid_faces v13 e = Inr (Some fs, v') \<Longrightarrow> [] \<notin> set fs"
  "midside_tetra_faces v13 e = Inr (Some fs, v') \<Longrightarrow> [] \<notin> set fs"
  unfolding shell_faces_def midside_shell_faces_def solid_faces_def midside_solid_faces_def
    midside_tetra_faces_def faces_on_15wedge_def
  using faces_on_nonempty
  by (auto simp: Let_def split: if_splits option.splits)

lemma element_faces_nonempty:
  "element_faces et v13 e = Inr (Some fs, v') \<Longrightarrow> [] \<notin> set fs"
  unfolding element_faces_def
  by (auto split: if_splits option.splits dest: family_faces_nonempty)

lemma wf_count_face:
  "wf_counted c \<Longrightarrow> face \<noteq> [] \<Longrightarrow> wf_counted (count_face g face c)"
  unfolding wf_counted_def count_face_def Let_def
  by (auto simp: distinct_update update_conv' simp del: map_of_eq_Some_iff split: option.splits if_splits)

lemma wf_fold_count_face:
  "wf_counted c \<Longrightarrow> [] \<notin> set fs \<Longrightarrow> wf_counted (fold (count_face g) fs c)"
  by (induction fs arbitrary: c) (auto simp: wf_count_face)

lemma wf_count_faces:
  "wf_counted c \<Longrightarrow> [] \<notin> set fs \<Longrightarrow> wf_counted (count_faces g fs c)"
  unfolding count_faces_def
  by (rule wf_fold_count_face)
     (auto simp: wf_counted_def distinct_update update_conv' simp del: map_of_eq_Some_iff split: if_splits)

lemma wf_get_all_faces_loop:
  "wf_counted c \<Longrightarrow> get_all_faces_loop et es v13 c = Inr c' \<Longrightarrow> wf_counted c'"
proof (induction es arbitrary: v13 c)
  case Nil then show ?case by simp
next
  case (Cons e es)
  then show ?case
    by (auto split: sum.splits option.splits prod.splits
        dest!: element_faces_nonempty intro: wf_count_faces)
qed

lemma wf_get_all_faces: "get_all_faces ge et = Inr c \<Longrightarrow> wf_counted c"
  unfolding get_all_faces_def by (rule wf_get_all_faces_loop[rotated]) (auto simp: wf_counted_def)

lemma get_outer_faces_loop_lookup:
  "distinct (map fst c) \<Longrightarrow> \<forall>g d. map_of c g = Some d \<longrightarrow> map_of d [] = None \<Longrightarrow>
   \<exists>outer. get_outer_faces_loop rd c acc = Inr outer \<and>
     (\<forall>g. map_of outer g =
        (case map_of c g of Some d \<Rightarrow> Some (outer_filter rd d) | None \<Rightarrow> map_of acc g))"
proof (induction c arbitrary: acc)
  case Nil then show ?case by simp
next
  case (Cons p c)
  obtain k d where p: "p = (k, d)" by (cases p)
  from Cons.prems p have kc: "map_of c k = None" and dc: "distinct (map fst c)"
    by (auto simp: map_of_eq_None_iff)
  from Cons.prems(2)[rule_format, of k d] p have dn: "map_of d [] = None" by simp
  have rest: "\<forall>g d. map_of c g = Some d \<longrightarrow> map_of d [] = None"
  proof (intro allI impI)
    fix g d' assume a: "map_of c g = Some d'"
    with kc have "g \<noteq> k" by auto
    with a p have "map_of (p # c) g = Some d'" by simp
    with Cons.prems(2) show "map_of d' [] = None" by blast
  qed
  from dn have og: "outer_of_group rd d = Inr (outer_filter rd d)"
    by (auto simp: outer_of_group_def outer_filter_def map_of_eq_None_iff)
  from Cons.IH[OF dc rest, of "AList.update k (outer_filter rd d) acc"]
  obtain outer where o1: "get_outer_faces_loop rd c (AList.update k (outer_filter rd d) acc) = Inr outer"
    and o2: "\<And>g. map_of outer g =
        (case map_of c g of Some d \<Rightarrow> Some (outer_filter rd d)
         | None \<Rightarrow> map_of (AList.update k (outer_filter rd d) acc) g)" by blast
  have "get_outer_faces_loop rd (p # c) acc = Inr outer" using p og o1 by simp
  moreover have "map_of outer g =
        (case map_of (p # c) g of Some d \<Rightarrow> Some (outer_filter rd d) | None \<Rightarrow> map_of acc g)" for g
  proof (cases "g = k")
    case True then show ?thesis using o2[of k] kc p by (simp add: update_conv')
  next
    case False then show ?thesis using o2[of g] p by (simp add: update_conv' split: option.splits)
  qed
  ultimately show ?case by blast
qed

lemma get_outer_faces_lookup:
  assumes "wf_counted c" and "map_of c g = Some d"
  shows "\<exists>outer. get_outer_faces rd c = Inr outer \<and> map_of outer g = Some (outer_filter rd d)"
proof -
  from assms(1) have "distinct (map fst c)" "\<forall>g d. map_of c g = Some d \<longrightarrow> map_of d [] = None"
    unfolding wf_counted_def by blast+
  from get_outer_faces_loop_lookup[OF this, of rd "[]"] assms(2)
  show ?thesis unfolding get_outer_faces_def by (metis option.simps(5))
qed



lemma group_count_count_face:
  "map_of c g' \<noteq> None \<Longrightarrow>
   group_count (count_face g' f0 c) g f = group_count c g f + (if g' = g \<and> f0 = f then 1 else 0)"
  by (auto simp: group_count_def count_face_def stored_count_def Let_def update_conv'
           split: option.splits)

lemma count_face_keeps_group: "map_of c g' \<noteq> None \<Longrightarrow> map_of (count_face g' f0 c) g' \<noteq> None"
  by (auto simp: count_face_def Let_def update_conv' split: option.splits)

lemma group_count_fold:
  "map_of c g' \<noteq> None \<Longrightarrow>
   group_count (fold (count_face g') fs c) g f =
     group_count c g f + (if g' = g then count_list fs f else 0)"
proof (induction fs arbitrary: c)
  case Nil then show ?case by simp
next
  case (Cons f0 fs)
  have k: "map_of (count_face g' f0 c) g' \<noteq> None" by (rule count_face_keeps_group[OF Cons.prems])
  show ?case
    using Cons.IH[OF k] group_count_count_face[OF Cons.prems, of f0 g f] by auto
qed

lemma group_count_count_faces:
  "group_count (count_faces g' fs c) g f =
     group_count c g f + (if g' = g then count_list fs f else 0)"
proof (cases "map_of c g'")
  case None
  have a: "map_of (AList.update g' [] c) g' \<noteq> None" by (simp add: update_conv')
  have b: "group_count (AList.update g' [] c) g f = group_count c g f"
    using None by (auto simp: group_count_def stored_count_def update_conv')
  show ?thesis unfolding count_faces_def using None group_count_fold[OF a, of fs g f] b by simp
next
  case (Some d)
  then have a: "map_of c g' \<noteq> None" by simp
  show ?thesis unfolding count_faces_def using Some group_count_fold[OF a, of fs g f] by simp
qed

lemma group_count_loop:
  "get_all_faces_loop element_types es v13 c = Inr c' \<Longrightarrow>
   group_count c' g f = group_count c g f + count_list (generated_faces element_types es v13 g) f"
proof (induction es arbitrary: v13 c)
  case Nil then show ?case by simp
next
  case (Cons e es)
  show ?case
  proof (cases "element_faces element_types v13 e")
    case (Inl err) with Cons.prems show ?thesis by simp
  next
    case (Inr r)
    obtain fo v13' where r: "r = (fo, v13')" by (cases r)
    show ?thesis
    proof (cases fo)
      case None
      with Inr r Cons.prems Cons.IH[of v13' c] show ?thesis by simp
    next
      case (Some fs)
      with Inr r Cons.prems have
        "get_all_faces_loop element_types es v13' (count_faces (e ! 0, e ! 1) fs c) = Inr c'" by simp
      from Cons.IH[OF this] Inr r Some show ?thesis
        by (simp add: group_count_count_faces)
    qed
  qed
qed

lemma stored_count_get_all_faces:
  assumes "get_all_faces elements element_types = Inr c" and "map_of c g = Some d"
  shows "stored_count d f = count_list (generated_faces element_types (map snd elements) None g) f"
  using group_count_loop[OF assms(1)[unfolded get_all_faces_def], of g f] assms(2)
  by (simp add: group_count_def)

lemma abutting_get_all_faces:
  "get_all_faces abutting_elements abutting_types = Inr [((1, 1), abutting_counts)]"
  by code_simp


section \<open>Properties of the renumbering\<close>

lemma first_seen_from_append: "\<exists>ext. first_seen_from seen xs = seen @ ext"
  by (induction xs arbitrary: seen) (auto, metis append.assoc)

lemma first_seen_from_app: "first_seen_from seen (xs @ ys) = first_seen_from (first_seen_from seen xs) ys"
  by (induction xs arbitrary: seen) auto

lemma set_first_seen_from: "set (first_seen_from seen xs) = set seen \<union> set xs"
  by (induction xs arbitrary: seen) auto

lemma distinct_first_seen_from: "distinct seen \<Longrightarrow> distinct (first_seen_from seen xs)"
  by (induction xs arbitrary: seen) auto

lemma length_first_seen: "length (first_seen xs) = card (set xs)"
  using distinct_card[OF distinct_first_seen_from[of "[]" xs]]
  by (simp add: first_seen_def set_first_seen_from)

lemma renum_inv_known:
  "renum_inv st \<Longrightarrow> vert_coords st c = Some i \<Longrightarrow> i < length (verts st) \<and> verts st ! i = c \<and> c \<in> set (verts st)"
  unfolding renum_inv_def by (metis nth_mem)

lemma renum_inv_fresh:
  assumes "renum_inv st" and "vert_coords st c = None"
  shows "c \<notin> set (verts st)"
proof
  assume "c \<in> set (verts st)"
  then obtain i where "i < length (verts st)" "verts st ! i = c" by (auto simp: in_set_conv_nth)
  with assms(1) have "vert_coords st c = Some i" unfolding renum_inv_def by blast
  with assms(2) show False by simp
qed

lemma renum_inv_step:
  assumes "renum_inv st" and "vert_coords st c = None"
  shows "renum_inv (st\<lparr>vert_coords := (vert_coords st)(c \<mapsto> index_number st),
                        index_number := index_number st + 1,
                        verts := verts st @ [c]\<rparr>)"
proof -
  have fresh: "c \<notin> set (verts st)" by (rule renum_inv_fresh[OF assms])
  from assms(1) have n: "index_number st = length (verts st)" and d: "distinct (verts st)"
    and m: "\<And>c i. vert_coords st c = Some i \<longleftrightarrow> (i < length (verts st) \<and> verts st ! i = c)"
    unfolding renum_inv_def by blast+
  have "((vert_coords st)(c \<mapsto> length (verts st))) c' = Some i \<longleftrightarrow>
        (i < length (verts st @ [c]) \<and> (verts st @ [c]) ! i = c')" for c' i
  proof (cases "c' = c")
    case True
    have "i < length (verts st) \<Longrightarrow> verts st ! i \<noteq> c" using fresh by (metis nth_mem)
    then show ?thesis using True by (auto simp: nth_append)
  next
    case False
    then show ?thesis using m[of c' i] by (auto simp: nth_append)
  qed
  then show ?thesis using n d fresh unfolding renum_inv_def by simp
qed

lemma renumber_face_spec:
  assumes "renum_inv st" and "renumber_face node_table f st face = Inr (st', face')"
  shows "renum_inv st' \<and> faces st' = faces st \<and>
         verts st' = first_seen_from (verts st) (List.map_filter (map_of node_table) f) \<and>
         (\<exists>new. face' = face @ new \<and> length new = length f \<and>
            (\<forall>p<length f. new ! p < length (verts st') \<and>
                           map_of node_table (f ! p) = Some (verts st' ! (new ! p))))"
  using assms
proof (induction f arbitrary: st face)
  case Nil
  then show ?case by (simp add: List.map_filter_simps)
next
  case (Cons v vs)
  from Cons.prems(2) obtain coord where co: "map_of node_table v = Some coord"
    by (auto split: option.splits)
  show ?case
  proof (cases "vert_coords st coord")
    case (Some index)
    with co Cons.prems(2) have r: "renumber_face node_table vs st (face @ [index]) = Inr (st', face')"
      by simp
    from renum_inv_known[OF Cons.prems(1) Some]
    have ix: "index < length (verts st)" "verts st ! index = coord" "coord \<in> set (verts st)" by auto
    from Cons.IH[OF Cons.prems(1) r] obtain new where
      i1: "renum_inv st'" "faces st' = faces st"
      "verts st' = first_seen_from (verts st) (List.map_filter (map_of node_table) vs)"
      and n1: "face' = (face @ [index]) @ new" "length new = length vs"
      "\<forall>p<length vs. new ! p < length (verts st') \<and> map_of node_table (vs ! p) = Some (verts st' ! (new ! p))"
      by blast
    obtain ext where ext: "verts st' = verts st @ ext"
      using first_seen_from_append[of "verts st"] i1(3) by metis
    have v0: "index < length (verts st')" "verts st' ! index = coord"
      using ix ext by (auto simp: nth_append)
    have "\<forall>p<length (v # vs). (index # new) ! p < length (verts st') \<and>
            map_of node_table ((v # vs) ! p) = Some (verts st' ! ((index # new) ! p))"
      using v0 n1(3) co by (auto simp: nth_Cons')
    moreover have "face' = face @ (index # new)" "length (index # new) = length (v # vs)"
      using n1 by simp_all
    moreover have "verts st' = first_seen_from (verts st) (List.map_filter (map_of node_table) (v # vs))"
      using i1(3) co ix(3) by (simp add: List.map_filter_simps)
    ultimately show ?thesis using i1(1,2) by blast
  next
    case None
    let ?st1 = "st\<lparr>vert_coords := (vert_coords st)(coord \<mapsto> index_number st),
                     index_number := index_number st + 1,
                     verts := verts st @ [coord]\<rparr>"
    from None co Cons.prems(2)
    have r: "renumber_face node_table vs ?st1 (face @ [index_number st]) = Inr (st', face')" by simp
    have inv1: "renum_inv ?st1" by (rule renum_inv_step[OF Cons.prems(1) None])
    have fresh: "coord \<notin> set (verts st)" by (rule renum_inv_fresh[OF Cons.prems(1) None])
    have n: "index_number st = length (verts st)" using Cons.prems(1) unfolding renum_inv_def by blast
    from Cons.IH[OF inv1 r] obtain new where
      i1: "renum_inv st'" "faces st' = faces ?st1"
      "verts st' = first_seen_from (verts ?st1) (List.map_filter (map_of node_table) vs)"
      and n1: "face' = (face @ [index_number st]) @ new" "length new = length vs"
      "\<forall>p<length vs. new ! p < length (verts st') \<and> map_of node_table (vs ! p) = Some (verts st' ! (new ! p))"
      by blast
    obtain ext where ext: "verts st' = (verts st @ [coord]) @ ext"
      using first_seen_from_append[of "verts st @ [coord]"] i1(3) by auto
    have v0: "index_number st < length (verts st')" "verts st' ! index_number st = coord"
      using n ext by (auto simp: nth_append)
    have "\<forall>p<length (v # vs). (index_number st # new) ! p < length (verts st') \<and>
            map_of node_table ((v # vs) ! p) = Some (verts st' ! ((index_number st # new) ! p))"
      using v0 n1(3) co by (auto simp: nth_Cons')
    moreover have "face' = face @ (index_number st # new)" "length (index_number st # new) = length (v # vs)"
      using n1 by simp_all
    moreover have "verts st' = first_seen_from (verts st) (List.map_filter (map_of node_table) (v # vs))"
      using i1(3) co fresh by (simp add: List.map_filter_simps)
    ultimately show ?thesis using i1(1,2) by auto
  qed
qed

lemma map_filter_append: "List.map_filter g (xs @ ys) = List.map_filter g xs @ List.map_filter g ys"
  by (simp add: List.map_filter_def)

lemma set_map_filter: "set (List.map_filter g xs) = {y. \<exists>x\<in>set xs. g x = Some y}"
proof (induction xs)
  case Nil then show ?case by (simp add: List.map_filter_simps)
next
  case (Cons a xs) then show ?case by (cases "g a") (auto simp: List.map_filter_simps)
qed

lemma face_nodes_Cons: "face_nodes ((g, gfs) # rest) = (\<Union>f\<in>set gfs. set f) \<union> face_nodes rest"
  by (simp add: face_nodes_def)

lemma renumber_face_missing:
  "\<exists>v\<in>set f. map_of node_table v = None \<Longrightarrow> renumber_face node_table f st face = Inl KeyError"
  by (induction f arbitrary: st face) (auto split: option.splits)

lemma renumber_face_present:
  "\<forall>v\<in>set f. map_of node_table v \<noteq> None \<Longrightarrow> \<exists>r. renumber_face node_table f st face = Inr r"
  by (induction f arbitrary: st face) (auto split: option.splits)

lemma renumber_faces_missing:
  "\<exists>f\<in>set fs. \<exists>v\<in>set f. map_of node_table v = None \<Longrightarrow> renumber_faces node_table fs st = Inl KeyError"
proof (induction fs arbitrary: st)
  case Nil then show ?case by simp
next
  case (Cons f fs)
  show ?case
  proof (cases "\<exists>v\<in>set f. map_of node_table v = None")
    case True
    then show ?thesis by (simp add: renumber_face_missing)
  next
    case False
    with Cons.prems have rest: "\<exists>f\<in>set fs. \<exists>v\<in>set f. map_of node_table v = None" by auto
    from False obtain r where "renumber_face node_table f st [] = Inr r"
      using renumber_face_present[of f node_table st "[]"] by auto
    then show ?thesis using Cons.IH[OF rest] by (cases r) simp
  qed
qed

lemma renumber_faces_present:
  "\<forall>f\<in>set fs. \<forall>v\<in>set f. map_of node_table v \<noteq> None \<Longrightarrow> \<exists>r. renumber_faces node_table fs st = Inr r"
proof (induction fs arbitrary: st)
  case Nil then show ?case by simp
next
  case (Cons f fs)
  then obtain r where "renumber_face node_table f st [] = Inr r"
    using renumber_face_present[of f node_table st "[]"] by auto
  then show ?case using Cons by (cases r) simp
qed

lemma renumber_group_missing:
  "\<exists>f\<in>set fs. \<exists>v\<in>set f. map_of node_table v = None \<Longrightarrow> renumber_group node_table fs = Inl KeyError"
  by (simp add: renumber_group_def renumber_faces_missing)

lemma renumber_group_present:
  "\<forall>f\<in>set fs. \<forall>v\<in>set f. map_of node_table v \<noteq> None \<Longrightarrow> \<exists>r. renumber_group node_table fs = Inr r"
proof -
  assume "\<forall>f\<in>set fs. \<forall>v\<in>set f. map_of node_table v \<noteq> None"
  from renumber_faces_present[OF this] obtain r where
    "renumber_faces node_table fs \<lparr>index_number = 0, vert_coords = Map.empty, verts = [], faces = []\<rparr> = Inr r"
    by blast
  then show ?thesis by (simp add: renumber_group_def)
qed

lemma renumber_loop_missing:
  "\<exists>v\<in>face_nodes global_faces. map_of node_table v = None \<Longrightarrow>
   renumber_loop node_table global_faces vs fs = Inl KeyError"
proof (induction global_faces arbitrary: vs fs)
  case Nil then show ?case by (simp add: face_nodes_def)
next
  case (Cons p rest)
  obtain g gfs where p: "p = (g, gfs)" by (cases p)
  show ?case
  proof (cases "\<exists>f\<in>set gfs. \<exists>v\<in>set f. map_of node_table v = None")
    case True
    then show ?thesis using p by (simp add: renumber_group_missing)
  next
    case False
    from Cons.prems obtain v where v: "v \<in> face_nodes (p # rest)" "map_of node_table v = None" by blast
    from v(1) p have "v \<in> (\<Union>f\<in>set gfs. set f) \<or> v \<in> face_nodes rest"
      by (simp add: face_nodes_Cons)
    with False v(2) have r: "\<exists>v\<in>face_nodes rest. map_of node_table v = None" by blast
    from False obtain a b where "renumber_group node_table gfs = Inr (a, b)"
      using renumber_group_present[of gfs node_table] by auto
    then show ?thesis using Cons.IH[OF r] p by simp
  qed
qed

lemma renumber_loop_present:
  "\<forall>v\<in>face_nodes global_faces. map_of node_table v \<noteq> None \<Longrightarrow>
   \<exists>r. renumber_loop node_table global_faces vs fs = Inr r"
proof (induction global_faces arbitrary: vs fs)
  case Nil then show ?case by simp
next
  case (Cons p rest)
  obtain g gfs where p: "p = (g, gfs)" by (cases p)
  from Cons.prems p have 1: "\<forall>f\<in>set gfs. \<forall>v\<in>set f. map_of node_table v \<noteq> None"
    and 2: "\<forall>v\<in>face_nodes rest. map_of node_table v \<noteq> None"
    by (auto simp: face_nodes_Cons)
  from 1 obtain a b where "renumber_group node_table gfs = Inr (a, b)"
    using renumber_group_present[of gfs node_table] by auto
  then show ?case using Cons.IH[OF 2] p by simp
qed

lemma renumber_faces_spec:
  assumes "renum_inv st" and "renumber_faces node_table fs st = Inr st'"
  shows "renum_inv st' \<and>
         verts st' = first_seen_from (verts st) (List.map_filter (map_of node_table) (concat fs)) \<and>
         (\<exists>new. faces st' = faces st @ new \<and> length new = length fs \<and>
            (\<forall>j<length fs. length (new ! j) = length (fs ! j) \<and>
               (\<forall>p<length (fs ! j). new ! j ! p < length (verts st') \<and>
                  map_of node_table (fs ! j ! p) = Some (verts st' ! (new ! j ! p)))))"
  using assms
proof (induction fs arbitrary: st)
  case Nil
  then show ?case by (simp add: List.map_filter_simps)
next
  case (Cons f fs)
  from Cons.prems(2) obtain st1 face where
    rf: "renumber_face node_table f st [] = Inr (st1, face)"
    and rr: "renumber_faces node_table fs (st1\<lparr>faces := faces st1 @ [face]\<rparr>) = Inr st'"
    by (auto split: sum.splits)
  from renumber_face_spec[OF Cons.prems(1) rf] have
    a: "renum_inv st1" "faces st1 = faces st"
       "verts st1 = first_seen_from (verts st) (List.map_filter (map_of node_table) f)"
       "length face = length f"
       "\<forall>p<length f. face ! p < length (verts st1) \<and> map_of node_table (f ! p) = Some (verts st1 ! (face ! p))"
    by auto
  have inv1: "renum_inv (st1\<lparr>faces := faces st1 @ [face]\<rparr>)"
    using a(1) by (simp add: renum_inv_def)
  from Cons.IH[OF inv1 rr] obtain new where
    b: "renum_inv st'"
       "verts st' = first_seen_from (verts st1) (List.map_filter (map_of node_table) (concat fs))"
       "faces st' = (faces st1 @ [face]) @ new" "length new = length fs"
       "\<forall>j<length fs. length (new ! j) = length (fs ! j) \<and>
               (\<forall>p<length (fs ! j). new ! j ! p < length (verts st') \<and>
                  map_of node_table (fs ! j ! p) = Some (verts st' ! (new ! j ! p)))"
    by auto
  obtain ext where ext: "verts st' = verts st1 @ ext"
    using first_seen_from_append[of "verts st1"] b(2) by metis
  have f0: "\<forall>p<length f. face ! p < length (verts st') \<and> map_of node_table (f ! p) = Some (verts st' ! (face ! p))"
    using a(5) ext by (auto simp: nth_append)
  have all: "\<forall>j<length (f # fs). length ((face # new) ! j) = length ((f # fs) ! j) \<and>
               (\<forall>p<length ((f # fs) ! j). (face # new) ! j ! p < length (verts st') \<and>
                  map_of node_table ((f # fs) ! j ! p) = Some (verts st' ! ((face # new) ! j ! p)))"
  proof (intro allI impI)
    fix j assume "j < length (f # fs)"
    show "length ((face # new) ! j) = length ((f # fs) ! j) \<and>
               (\<forall>p<length ((f # fs) ! j). (face # new) ! j ! p < length (verts st') \<and>
                  map_of node_table ((f # fs) ! j ! p) = Some (verts st' ! ((face # new) ! j ! p)))"
    proof (cases j)
      case 0 then show ?thesis using a(4) f0 by simp
    next
      case (Suc j') then show ?thesis using b(5) \<open>j < length (f # fs)\<close> by simp
    qed
  qed
  have v: "verts st' = first_seen_from (verts st) (List.map_filter (map_of node_table) (concat (f # fs)))"
    using a(3) b(2) by (simp add: map_filter_append first_seen_from_app)
  have "faces st' = faces st @ (face # new)" "length (face # new) = length (f # fs)"
    using a(2) b(3,4) by simp_all
  with all v b(1) show ?case by blast
qed

section \<open>Properties of the reader\<close>

lemma py_slice_Nil: "py_slice [] a b = []"
  by (simp add: py_slice_def)

lemma py_int_Nil: "py_int [] = None"
  by (simp add: py_int_def strip_def)

lemma solid_more_fields_prefix:
  "solid_more_fields fuel forms field_count element_line field_list loc = Some (field_list', loc') \<Longrightarrow>
   \<exists>ext. field_list' = field_list @ ext"
proof (induction fuel arbitrary: field_list loc)
  case 0 then show ?case by simp
next
  case (Suc fuel)
  show ?case
  proof (cases "field_count < length forms")
    case False with Suc.prems show ?thesis by simp
  next
    case True
    show ?thesis
    proof (cases "py_int (py_slice element_line 0 (0 + width forms field_count))")
      case None with True Suc.prems show ?thesis by simp
    next
      case (Some v)
      with True Suc.prems have
        "solid_more_fields fuel forms field_count element_line (field_list @ [v])
           (loc\<lparr>end_var := Some (0 + width forms field_count), field_var := Some v\<rparr>) = Some (field_list', loc')"
        by simp
      from Suc.IH[OF this] show ?thesis by auto
    qed
  qed
qed

lemma solid_more_lines_diverges:
  "8 < length field_list \<Longrightarrow> int field_count < field_list ! 8 + 11 \<Longrightarrow>
   solid_more_lines fuel forms field_count field_list loc filehandle = None"
proof (induction fuel arbitrary: field_list loc filehandle)
  case 0 then show ?case by simp
next
  case (Suc fuel)
  obtain element_line rest where rl: "readline filehandle = (element_line, rest)"
    by (cases "readline filehandle")
  show ?case
  proof (cases "solid_more_fields fuel forms field_count element_line field_list loc")
    case None
    with Suc.prems rl show ?thesis by simp
  next
    case (Some r)
    obtain field_list' loc' where r: "r = (field_list', loc')" by (cases r)
    from solid_more_fields_prefix[OF Some[unfolded r]] obtain ext where
      e: "field_list' = field_list @ ext" by blast
    with Suc.prems have "8 < length field_list'" "int field_count < field_list' ! 8 + 11"
      by (simp_all add: nth_append)
    from Suc.IH[OF this] Suc.prems rl Some r show ?thesis by simp
  qed
qed

lemma solid_fields_Cons_eof:
  "solid_fields forms [] (i # is) start field_list loc =
     (let loc1 = (if i < length forms then loc\<lparr>end_var := Some (start + width forms i)\<rparr> else loc)
      in case field_var loc1 of
           None \<Rightarrow> Inl UnboundLocalError
         | Some v \<Rightarrow>
             (case end_var loc1 of
                None \<Rightarrow> Inl UnboundLocalError
              | Some e \<Rightarrow> solid_fields forms [] is e (field_list @ [v]) loc1))"
  by (simp add: py_slice_Nil py_int_Nil Let_def cong: option.case_cong)

lemma solid_fields_eof:
  "field_var loc = Some v \<Longrightarrow> end_var loc \<noteq> None \<Longrightarrow>
   \<exists>loc'. solid_fields forms [] is start field_list loc = Inr (field_list @ replicate (length is) v, loc') \<and>
          field_var loc' = Some v \<and> end_var loc' \<noteq> None"
proof (induction "is" arbitrary: start field_list loc)
  case Nil then show ?case by simp
next
  case (Cons i "is")
  define loc1 where "loc1 = (if i < length forms then loc\<lparr>end_var := Some (start + width forms i)\<rparr> else loc)"
  have l1: "field_var loc1 = Some v" "end_var loc1 \<noteq> None"
    using Cons.prems by (auto simp: loc1_def)
  then obtain e where e: "end_var loc1 = Some e" by auto
  from Cons.IH[OF l1, of e "field_list @ [v]"] obtain loc' where
    r: "solid_fields forms [] is e (field_list @ [v]) loc1 = Inr ((field_list @ [v]) @ replicate (length is) v, loc')"
    "field_var loc' = Some v" "end_var loc' \<noteq> None" by blast
  have "solid_fields forms [] (i # is) start field_list loc =
        solid_fields forms [] is e (field_list @ [v]) loc1"
    unfolding solid_fields_Cons_eof Let_def loc1_def[symmetric] using l1 e by simp
  with r show ?case by (auto simp: replicate_app_Cons_same)
qed

lemma readEBLOCK_loop_eof:
  "field_var loc = Some v \<Longrightarrow> end_var loc \<noteq> None \<Longrightarrow> 11 \<le> Num_fields \<Longrightarrow>
   readEBLOCK_loop fuel True Num_fields forms loc [] st = None"
proof (induction fuel arbitrary: loc st)
  case 0 then show ?case by simp
next
  case (Suc fuel)
  from solid_fields_eof[OF Suc.prems(1,2), of forms "[0..<nat Num_fields]" 0 "[]"]
  obtain loc' where sf: "solid_fields forms [] [0..<nat Num_fields] 0 [] loc = Inr (replicate (nat Num_fields) v, loc')"
    and l': "field_var loc' = Some v" "end_var loc' \<noteq> None" by auto
  have len: "length (replicate (nat Num_fields) v) = nat Num_fields" by simp
  have n11: "11 \<le> nat Num_fields" using Suc.prems(3) by simp
  show ?case
  proof (cases "solid_more_lines fuel forms (nat Num_fields) (replicate (nat Num_fields) v) loc' []")
    case None
    then show ?thesis using sf n11 by (simp add: readline_def strip_def)
  next
    case (Some r)
    obtain fl2 loc2 rest2 where r: "r = (fl2, loc2, rest2)" by (cases r)
    have notdiv: "\<not> int (nat Num_fields) < replicate (nat Num_fields) v ! 8 + 11"
    proof
      assume "int (nat Num_fields) < replicate (nat Num_fields) v ! 8 + 11"
      from solid_more_lines_diverges[OF _ this, of fuel forms loc' "[]"] n11 Some show False by simp
    qed
    have "fuel \<noteq> 0" using Some by (cases fuel) auto
    then obtain k where k: "fuel = Suc k" by (cases fuel) auto
    from Some r notdiv k have eq: "fl2 = replicate (nat Num_fields) v" "loc2 = loc'" "rest2 = []"
      by simp_all
    have "readEBLOCK_loop fuel True Num_fields forms loc' [] (st\<lparr>global_e := AList.update (fl2 ! 10)
            ([fl2 ! 0, fl2 ! 2, fl2 ! 1] @ drop 11 fl2) (global_e st)\<rparr>) = None"
      by (rule Suc.IH[OF l' Suc.prems(3)])
    then show ?thesis using sf n11 Some r eq
      by (simp add: readline_def strip_def Let_def)
  qed
qed

lemma read_loop_diverges:
  "line \<noteq> [] \<Longrightarrow> parseCommand pyfloat fuel line rest st = None \<Longrightarrow>
   read_loop pyfloat (Suc fuel) (line # rest) st = None"
  by (simp add: readline_def)

lemma parseCommand_eblock:
  "tokenize line = tokens \<Longrightarrow> tokens ! 0 = ''eblock'' \<Longrightarrow>
   parseCommand pyfloat fuel line filehandle st = readEBLOCK fuel tokens filehandle st"
  by (simp add: parseCommand_def Let_def)

lemma readEBLOCK_solid:
  "3 \<le> length tokens \<Longrightarrow> py_int (tokens ! 1) = Some N \<Longrightarrow> tokens ! 2 = ''solid'' \<Longrightarrow>
   detectFormat format_line = forms \<Longrightarrow> 12 \<le> length forms \<Longrightarrow>
   readEBLOCK fuel tokens (format_line # rest) st =
     readEBLOCK_loop fuel True N forms \<lparr>field_var = None, end_var = None\<rparr> rest st"
  by (simp add: readEBLOCK_def readline_def Let_def)

lemma readEBLOCK_loop_continuation_diverges:
  assumes "take 1 (strip element_line) \<noteq> ''-''"
    and "solid_fields forms element_line [0..<nat N] 0 [] loc = Inr (field_list, loc1)"
    and "8 < length field_list"
    and "int (length field_list) < field_list ! 8 + 11"
  shows "readEBLOCK_loop fuel True N forms loc (element_line # rest) st = None"
proof (cases fuel)
  case 0 then show ?thesis by simp
next
  case (Suc k)
  have "solid_more_lines k forms (length field_list) field_list loc1 rest = None"
    by (rule solid_more_lines_diverges[OF assms(3,4)])
  then show ?thesis using assms Suc by (simp add: readline_def Let_def)
qed

lemma readEBLOCK_loop_record_then_eof:
  assumes "take 1 (strip element_line) \<noteq> ''-''"
    and "solid_fields forms element_line [0..<nat N] 0 [] loc = Inr (field_list, loc1)"
    and "11 \<le> length field_list"
    and "field_var loc1 = Some v" and "end_var loc1 \<noteq> None" and "11 \<le> N"
  shows "readEBLOCK_loop fuel True N forms loc [element_line] st = None"
proof (cases fuel)
  case 0 then show ?thesis by simp
next
  case (Suc k)
  show ?thesis
  proof (cases "solid_more_lines k forms (length field_list) field_list loc1 []")
    case None
    then show ?thesis using assms Suc by (simp add: readline_def Let_def)
  next
    case (Some r)
    obtain fl2 loc2 rest2 where r: "r = (fl2, loc2, rest2)" by (cases r)
    have nd: "\<not> int (length field_list) < field_list ! 8 + 11"
    proof
      assume "int (length field_list) < field_list ! 8 + 11"
      from solid_more_lines_diverges[OF _ this, of k forms loc1 "[]"] assms(3) Some show False by simp
    qed
    obtain j where j: "k = Suc j" using Some by (cases k) auto
    from Some r nd j have eq: "fl2 = field_list" "loc2 = loc1" "rest2 = []" by simp_all
    have "readEBLOCK_loop k True N forms loc1 []
            (st\<lparr>global_e := AList.update (field_list ! 10)
                   ([field_list ! 0, field_list ! 2, field_list ! 1] @ drop 11 field_list) (global_e st)\<rparr>) = None"
      by (rule readEBLOCK_loop_eof[OF assms(4,5,6)])
    then show ?thesis using assms(1,2,3) Suc Some r eq by (simp add: readline_def Let_def)
  qed
qed

lemma forms_19i8: "detectFormat format_19i8 = replicate 19 (''i'', 8, 0)"
  by code_simp

lemma tokens_eblock_line: "tokenize eblock_line = [''eblock'', ''19'', ''solid'', ''1'']"
  by code_simp

lemma py_int_19: "py_int ''19'' = Some 19"
  by code_simp

lemma lines_ten_node_deck:
  "lines_of ten_node_deck = [eblock_line, format_19i8, ten_node_first, ten_node_second, end_line]"
  by code_simp

lemma lines_truncated_deck:
  "lines_of truncated_deck = [eblock_line, format_19i8, four_node_record]"
  by code_simp

lemma eblock_line_nonempty: "eblock_line \<noteq> []"
  by (simp add: eblock_line_def)

lemma ten_node_first_fields:
  "solid_fields (replicate 19 (''i'', 8, 0)) ten_node_first [0..<nat 19] 0 [] \<lparr>field_var = None, end_var = None\<rparr> =
     Inr ([1, 1, 1, 1, 0, 0, 0, 0, 10, 0, 1, 1, 2, 3, 4, 5, 6, 7, 8], \<lparr>field_var = Some 8, end_var = Some 152\<rparr>)"
  by code_simp

lemma ten_node_first_no_dash: "take 1 (strip ten_node_first) \<noteq> ''-''"
  by code_simp

lemma four_node_record_fields:
  "solid_fields (replicate 19 (''i'', 8, 0)) four_node_record [0..<nat 19] 0 [] \<lparr>field_var = None, end_var = None\<rparr> =
     Inr ([1, 1, 1, 1, 0, 0, 0, 0, 4, 0, 1, 1, 2, 3, 4, 4, 4, 4, 4], \<lparr>field_var = Some 4, end_var = Some 152\<rparr>)"
  by code_simp

lemma four_node_record_no_dash: "take 1 (strip four_node_record) \<noteq> ''-''"
  by code_simp

lemma readET_empty_id: "readET (command # [] # family # others) st = Inl UnboundLocalError"
  by (simp add: readET_def Let_def)

lemma lines_et_command: "lines_of et_command = [et_command]"
  by code_simp

lemma tokens_et_command: "tokenize et_command = [''et'', [], ''186'']"
  by code_simp

lemma et_command_nonempty: "et_command \<noteq> []"
  by (simp add: et_command_def)

lemma parseCommand_et:
  "tokenize line = tokens \<Longrightarrow> tokens ! 0 = ''et'' \<Longrightarrow>
   parseCommand pyfloat fuel line filehandle st =
     Some (case readET tokens st of Inl err \<Rightarrow> Inl err | Inr st' \<Rightarrow> Inr (st', filehandle))"
  by (simp add: parseCommand_def Let_def)

lemma read_loop_raises:
  "line \<noteq> [] \<Longrightarrow> parseCommand pyfloat fuel line rest st = Some (Inl err) \<Longrightarrow>
   read_loop pyfloat (Suc fuel) (line # rest) st = Some (Inl err)"
  by (simp add: readline_def)


section \<open>Properties of the round trip\<close>

lemma read_cube_text:
  fixes pyfloat :: "string \<Rightarrow> 'c::{zero,equal} option"
  shows "read3DMesh pyfloat 100 module_globals
       (write_cdb corner_fmt (cube_nodes False True) cube_faces 1 False 1 False) =
     Some (Inr \<lparr>global_et = [(1, 63), (2, 93)],
                global_e = [(1, [1, 1, 1, 1, 4, 3, 2, 2, 2, 2, 2]),
                            (2, [1, 1, 1, 1, 2, 6, 5, 5, 5, 5, 5]),
                            (3, [1, 1, 1, 2, 3, 7, 6, 6, 6, 6, 6]),
                            (4, [1, 1, 1, 3, 4, 8, 7, 7, 7, 7, 7]),
                            (5, [1, 1, 1, 4, 1, 5, 8, 8, 8, 8, 8]),
                            (6, [1, 1, 1, 5, 6, 7, 8, 8, 8, 8, 8])],
                global_n = cube_nodes (parsed pyfloat zero_text) (parsed pyfloat one_text),
                current_element = None, current_mat = None, current_real = None,
                current_type = Some 2\<rparr>)"
  apply code_simp
  done

lemma renumber_group_spec:
  assumes "renumber_group node_table fs = Inr (vs, faces')"
  shows "vs = first_seen (walk_coords node_table fs) \<and>
         length vs = card (set (walk_coords node_table fs)) \<and>
         length faces' = length fs"
proof -
  let ?st0 = "\<lparr>index_number = 0, vert_coords = Map.empty, verts = ([] :: 'a list), faces = []\<rparr>"
  from assms obtain st where r: "renumber_faces node_table fs ?st0 = Inr st"
    and st: "vs = verts st" "faces' = faces st"
    by (auto simp: renumber_group_def split: sum.splits)
  have inv0: "renum_inv ?st0" by (simp add: renum_inv_def)
  from renumber_faces_spec[OF inv0 r] st have
    1: "vs = first_seen (walk_coords node_table fs)"
    and 3: "length faces' = length fs"
    by (auto simp: first_seen_def walk_coords_def)
  have 2: "length vs = card (set (walk_coords node_table fs))"
    unfolding 1 by (rule length_first_seen)
  from 1 2 3 show ?thesis by blast
qed

lemma write_cube:
  "fmt_g a = zero_text \<Longrightarrow> fmt_g b = one_text \<Longrightarrow>
   write_cdb fmt_g (cube_nodes a b) cube_faces 1 False 1 False =
   write_cdb corner_fmt (cube_nodes False True) cube_faces 1 False 1 False"
  by (simp add: write_cdb_def writeNBLOCK_def cube_nodes_def node_record_def corner_fmt_def)

lemma cube_get_faces:
  "get_faces cube_elements [(1, 63), (2, 93)] True = Inr [((1, 1), cube_outer)]"
  by code_simp

lemma cube_outer_nodes: "(\<Union>f\<in>set cube_outer. set f) = {1, 2, 3, 4, 5, 6, 7, 8}"
  by (auto simp: cube_outer_def)

lemma cube_renumber:
  assumes ab: "a \<noteq> b" and fs: "set fs = set cube_outer" "distinct fs"
  shows "\<exists>vs faces'. renumber (cube_nodes a b) [((1, 1), fs)] = Inr ([((1, 1), vs)], [((1, 1), faces')]) \<and>
           length vs = 8 \<and> length faces' = 6"
proof -
  have nodes: "set (concat fs) = {1, 2, 3, 4, 5, 6, 7, 8}"
    using fs(1) cube_outer_nodes by simp
  have present: "\<forall>f\<in>set fs. \<forall>v\<in>set f. map_of (cube_nodes a b) v \<noteq> None"
  proof (intro ballI)
    fix f v assume "f \<in> set fs" "v \<in> set f"
    then have "v \<in> set (concat fs)" by auto
    with nodes have "v \<in> {1, 2, 3, 4, 5, 6, 7, 8}" by simp
    then show "map_of (cube_nodes a b) v \<noteq> None" by (auto simp: cube_nodes_def)
  qed
  from renumber_group_present[OF present] obtain vs faces' where
    r: "renumber_group (cube_nodes a b) fs = Inr (vs, faces')" by (metis surj_pair)
  from renumber_group_spec[OF r] have
    l: "length vs = card (set (walk_coords (cube_nodes a b) fs))" "length faces' = length fs" by auto
  have "set (walk_coords (cube_nodes a b) fs) =
          {(a, a, a), (b, a, a), (b, b, a), (a, b, a), (a, a, b), (b, a, b), (b, b, b), (a, b, b)}"
    unfolding walk_coords_def set_map_filter nodes by (auto simp: cube_nodes_def)
  moreover have "card {(a, a, a), (b, a, a), (b, b, a), (a, b, a), (a, a, b), (b, a, b), (b, b, b), (a, b, b)} = 8"
    using ab by (simp add: card_insert_if) 
  ultimately have 8: "length vs = 8" using l(1) by simp
  have "length fs = card (set fs)" using fs(2) by (simp add: distinct_card)
  also have "\<dots> = card (set cube_outer)" using fs(1) by simp
  also have "\<dots> = 6" by (simp add: cube_outer_def card_insert_if)
  finally have 6: "length faces' = 6" using l(2) by simp
  have "renumber (cube_nodes a b) [((1, 1), fs)] = Inr ([((1, 1), vs)], [((1, 1), faces')])"
    using r by (simp add: renumber_def)
  with 8 6 show ?thesis by blast
qed


section \<open>The claims\<close>

text \<open>
  Claim C1. For every (material, real constant) group \<open>g\<close> that \<^verbatim>\<open>get_all_faces\<close> builds, with
  counted-face dictionary \<open>d\<close>, and every face \<open>f\<close> that is a key of \<open>d\<close>:
  \<^verbatim>\<open>get_outer_faces\<close> returns; the counterpart \<^verbatim>\<open>inverse_face(f)\<close> is \<open>f\<close> with its first node
  kept and the remaining nodes reversed, \<open>hd f # rev (tl f)\<close>; and \<open>f\<close> is among the outer
  faces of \<open>g\<close> if and only if that reversal is not a key of \<open>d\<close> and either
  \<^verbatim>\<open>remove_duplicates\<close> is false or the count stored for \<open>f\<close> is 1. The count stored for
  \<open>f\<close> is the number of times the elements of the group generate \<open>f\<close>.
\<close>

theorem outer_face_classification:
  assumes "get_all_faces elements element_types = Inr counted_faces"
    and "map_of counted_faces g = Some d"
    and "f \<in> fst ` set d"
  shows "\<exists>outer_faces fs.
           get_outer_faces remove_duplicates counted_faces = Inr outer_faces \<and>
           map_of outer_faces g = Some fs \<and>
           inverse_face f = hd f # rev (tl f) \<and>
           map_of d f = Some (count_list (generated_faces element_types (map snd elements) None g) f) \<and>
           (f \<in> set fs \<longleftrightarrow>
              hd f # rev (tl f) \<notin> fst ` set d \<and> (\<not> remove_duplicates \<or> map_of d f = Some 1))"
proof -
  have wf: "wf_counted counted_faces" by (rule wf_get_all_faces[OF assms(1)])
  from get_outer_faces_lookup[OF wf assms(2), of remove_duplicates]
  obtain outer_faces where o: "get_outer_faces remove_duplicates counted_faces = Inr outer_faces"
    "map_of outer_faces g = Some (outer_filter remove_duplicates d)" by blast
  from wf assms(2) have "map_of d [] = None" unfolding wf_counted_def by blast
  then have "[] \<notin> fst ` set d" by (simp add: map_of_eq_None_iff)
  with assms(3) have ne: "f \<noteq> []" by blast
  have inv: "inverse_face f = hd f # rev (tl f)" by (rule inverse_face_eq[OF ne])
  have "f \<in> set (outer_filter remove_duplicates d) \<longleftrightarrow>
          inverse_face f \<notin> fst ` set d \<and> (\<not> remove_duplicates \<or> map_of d f = Some 1)"
    using assms(3) by (auto simp: outer_filter_def map_of_eq_None_iff)
  then have cls: "f \<in> set (outer_filter remove_duplicates d) \<longleftrightarrow>
          hd f # rev (tl f) \<notin> fst ` set d \<and> (\<not> remove_duplicates \<or> map_of d f = Some 1)"
    unfolding inv .
  from assms(3) obtain n where n: "map_of d f = Some n"
    by (cases "map_of d f") (auto simp: map_of_eq_None_iff)
  then have "stored_count d f = n" by (simp add: stored_count_def)
  with n stored_count_get_all_faces[OF assms(1,2), of f]
  have "map_of d f = Some (count_list (generated_faces element_types (map snd elements) None g) f)"
    by simp
  with cls inv o show ?thesis by blast
qed

text \<open>
  The theorem at the two abutting hexahedra and the repeated shell face, with
  \<^verbatim>\<open>remove_duplicates=True\<close>: the bottom face \<open>(1, 4, 3, 2)\<close> is an outer face; the shared
  quadrilateral is no outer face under either winding, because the reversal of each is counted;
  the face \<open>(1, 2, 6, 5)\<close> is no outer face, because it is counted twice.
\<close>

theorem outer_face_classification_witness:
  "get_all_faces abutting_elements abutting_types = Inr [((1, 1), abutting_counts)] \<and>
   (\<exists>outer_faces fs.
      get_outer_faces True [((1, 1), abutting_counts)] = Inr outer_faces \<and>
      map_of outer_faces (1, 1) = Some fs \<and>
      [1, 4, 3, 2] \<in> set fs \<and> [5, 6, 7, 8] \<notin> set fs \<and> [5, 8, 7, 6] \<notin> set fs \<and>
      [1, 2, 6, 5] \<notin> set fs)"
proof -
  note h = abutting_get_all_faces
  have m: "map_of [((1 :: int, 1 :: int), abutting_counts)] (1, 1) = Some abutting_counts" by simp
  have k: "[1, 4, 3, 2] \<in> fst ` set abutting_counts" "[5, 6, 7, 8] \<in> fst ` set abutting_counts"
    "[5, 8, 7, 6] \<in> fst ` set abutting_counts" "[1, 2, 6, 5] \<in> fst ` set abutting_counts"
    by (simp_all add: abutting_counts_def)
  from outer_face_classification[OF h m k(1), of True] obtain outer_faces fs where
    o: "get_outer_faces True [((1, 1), abutting_counts)] = Inr outer_faces"
       "map_of outer_faces (1, 1) = Some fs"
    and 1: "[1, 4, 3, 2] \<in> set fs"
    by (auto simp: abutting_counts_def)
  from outer_face_classification[OF h m k(2), of True] o have 2: "[5, 6, 7, 8] \<notin> set fs"
    by (auto simp: abutting_counts_def)
  from outer_face_classification[OF h m k(3), of True] o have 3: "[5, 8, 7, 6] \<notin> set fs"
    by (auto simp: abutting_counts_def)
  from outer_face_classification[OF h m k(4), of True] o have 4: "[1, 2, 6, 5] \<notin> set fs"
    by (auto simp: abutting_counts_def)
  from h o 1 2 3 4 show ?thesis by blast
qed

text \<open>
  Claim C2, as stated, fails: \<^verbatim>\<open>order_face\<close> starts the result at the first position of the
  smallest node id, so when the smallest id occurs twice two rotations of one cycle are
  ordered differently. \<open>(1, 3, 1, 2)\<close> is \<open>(1, 2, 1, 3)\<close> rotated by two, and each is its own
  \<^verbatim>\<open>order_face\<close>.
\<close>

theorem order_face_rotation_counterexample:
  "rotate 2 [1, 2, 1, 3 :: int] = [1, 3, 1, 2] \<and>
   order_face (rotate 2 [1, 2, 1, 3]) = [1, 3, 1, 2] \<and>
   order_face [1, 2, 1, 3] = [1, 2, 1, 3] \<and>
   order_face (rotate 2 [1, 2, 1, 3]) \<noteq> order_face [1, 2, 1, 3]"
proof -
  have "rotate 2 [1, 2, 1, 3 :: int] = [1, 3, 1, 2]" by code_simp
  moreover have "order_face [1, 3, 1, 2] = [1, 3, 1, 2]" by code_simp
  moreover have "order_face [1, 2, 1, 3] = [1, 2, 1, 3]" by code_simp
  ultimately show ?thesis by simp
qed

text \<open>
  Claim C2, amended: for every non-empty tuple of node ids \<open>f\<close> in which the smallest node id
  occurs exactly once (in particular for every tuple of pairwise distinct node ids) and every
  cyclic rotation \<open>rotate n f\<close> of it, \<^verbatim>\<open>order_face\<close> of the rotation equals \<^verbatim>\<open>order_face\<close>
  of \<open>f\<close>.
\<close>

theorem order_face_rotation_invariant:
  assumes "f \<noteq> []" and "count_list f (Min (set f)) = 1"
  shows "order_face (rotate n f) = order_face f"
proof (rule unique_min_rotation[OF assms(1)], intro allI impI)
  fix i j assume "i < length f" "j < length f" "f ! i = f ! j \<and> f ! i = Min (set f)"
  then show "i = j" using count_list_one_unique[OF assms(2), of i j] by simp
qed

theorem order_face_rotation_invariant_witness:
  "[3, 1, 2 :: int] \<noteq> [] \<and> count_list [3, 1, 2] (Min (set [3, 1, 2 :: int])) = 1 \<and>
   order_face (rotate 2 [3, 1, 2]) = order_face [3, 1, 2] \<and> order_face [3, 1, 2] = [1, 2, 3]"
proof -
  have a: "[3, 1, 2 :: int] \<noteq> []" by simp
  have b: "count_list [3, 1, 2] (Min (set [3, 1, 2 :: int])) = 1" by simp
  have c: "order_face [3, 1, 2] = [1, 2, 3]" by code_simp
  show ?thesis using a b c order_face_rotation_invariant[OF a b, of 2] by simp
qed

text \<open>
  Claim C3 does not hold of the code. For the families 45 and 185 \<^verbatim>\<open>get_all_faces\<close> tests
  \<^verbatim>\<open>v3 == v4 and v7 == v8\<close> first, and an element with \<^verbatim>\<open>v3 == v4\<close> and
  \<^verbatim>\<open>v5 == v6 == v7 == v8\<close> passes that test: it is given the faces of a six-node wedge, and the
  branch that calls \<^verbatim>\<open>faces_on_4tetrahedral\<close> is never reached. At the element
  \<open>(1, 1, 1, 1, 2, 3, 3, 4, 4, 4, 4)\<close> of family 45 five faces are counted, and the four outer
  faces are one triangle and three tuples of four entries that repeat node 4.
\<close>

theorem collapsed_tetrahedron_gets_wedge_faces:
  "get_all_faces [(1, [1, 1, 1, 1, 2, 3, 3, 4, 4, 4, 4])] [(1, 45)] =
     Inr [((1, 1), [([1, 3, 2], 1), ([1, 2, 4, 4], 1), ([2, 3, 4, 4], 1), ([1, 4, 4, 3], 1),
                    ([4, 4, 4], 1)])] \<and>
   get_faces [(1, [1, 1, 1, 1, 2, 3, 3, 4, 4, 4, 4])] [(1, 45)] True =
     Inr [((1, 1), [[1, 3, 2], [1, 2, 4, 4], [2, 3, 4, 4], [1, 4, 4, 3]])] \<and>
   faces_on_4tetrahedral 1 2 3 4 = [[1, 3, 2], [1, 2, 4], [2, 3, 4], [1, 4, 3]]"
proof -
  have "get_all_faces [(1, [1, 1, 1, 1, 2, 3, 3, 4, 4, 4, 4])] [(1, 45)] =
     Inr [((1, 1), [([1, 3, 2], 1), ([1, 2, 4, 4], 1), ([2, 3, 4, 4], 1), ([1, 4, 4, 3], 1),
                    ([4, 4, 4], 1)])]"
    by code_simp
  moreover have "get_faces [(1, [1, 1, 1, 1, 2, 3, 3, 4, 4, 4, 4])] [(1, 45)] True =
     Inr [((1, 1), [[1, 3, 2], [1, 2, 4, 4], [2, 3, 4, 4], [1, 4, 4, 3]])]"
    by code_simp
  moreover have "faces_on_4tetrahedral 1 2 3 4 = [[1, 3, 2], [1, 2, 4], [2, 3, 4], [1, 4, 3]]"
    by code_simp
  ultimately show ?thesis by simp
qed

text \<open>
  Claim C10. For every face tuple \<open>f\<close> whose smallest node id is at position 0,
  \<^verbatim>\<open>inverse_face(f)\<close> has the same entry at position 0, and that entry is still the smallest:
  the inverse is in canonical form too (\<^verbatim>\<open>order_face\<close> leaves it as it is), and inverting
  twice gives \<open>f\<close> back.
\<close>

theorem inverse_face_canonical:
  assumes "f \<noteq> []" and "\<forall>x\<in>set f. f ! 0 \<le> x"
  shows "inverse_face f ! 0 = f ! 0 \<and> (\<forall>x\<in>set (inverse_face f). inverse_face f ! 0 \<le> x) \<and>
         order_face (inverse_face f) = inverse_face f \<and> inverse_face (inverse_face f) = f"
proof -
  have e: "inverse_face f = hd f # rev (tl f)" by (rule inverse_face_eq[OF assms(1)])
  have s: "set (inverse_face f) = set f" using assms(1) unfolding e by (cases f) auto
  have h: "hd f = f ! 0" using assms(1) by (simp add: hd_conv_nth)
  have 1: "inverse_face f ! 0 = f ! 0" unfolding e h by simp
  have 2: "\<forall>x\<in>set (inverse_face f). inverse_face f ! 0 \<le> x" using assms(2) unfolding 1 s .
  have ne: "inverse_face f \<noteq> []" unfolding e by simp
  have 3: "order_face (inverse_face f) = inverse_face f"
    using 2 ne by (intro order_face_fixed) (simp_all add: hd_conv_nth)
  have 4: "inverse_face (inverse_face f) = f"
  proof -
    have "inverse_face (inverse_face f) = hd (inverse_face f) # rev (tl (inverse_face f))"
      by (rule inverse_face_eq[OF ne])
    also have "\<dots> = hd f # rev (rev (tl f))" unfolding e by simp
    also have "\<dots> = f" using assms(1) by simp
    finally show ?thesis .
  qed
  from 1 2 3 4 show ?thesis by blast
qed

theorem inverse_face_canonical_witness:
  "[1, 2, 3, 4 :: int] \<noteq> [] \<and> Min (set [1, 2, 3, 4 :: int]) = [1, 2, 3, 4] ! 0 \<and>
   inverse_face [1, 2, 3, 4] = [1, 4, 3, 2] \<and>
   inverse_face [1, 2, 3, 4] ! 0 = [1, 2, 3, 4 :: int] ! 0 \<and>
   order_face (inverse_face [1, 2, 3, 4]) = inverse_face [1, 2, 3, 4] \<and>
   inverse_face (inverse_face [1, 2, 3, 4]) = [1, 2, 3, 4]"
proof -
  have a: "[1, 2, 3, 4 :: int] \<noteq> []" by simp
  have b: "\<forall>x\<in>set [1, 2, 3, 4 :: int]. [1, 2, 3, 4] ! 0 \<le> x" by simp
  have c: "inverse_face [1, 2, 3, 4] = [1, 4, 3, 2]" by code_simp
  show ?thesis using a b c inverse_face_canonical[OF a b] by simp
qed

text \<open>
  Claim C7, as stated, fails: \<^verbatim>\<open>renumber\<close> looks the index up by coordinate
  (\<^verbatim>\<open>vert_coords.get(coord)\<close>), so two node ids with the same coordinate share one vertex.
  The face \<open>(1, 2, 3)\<close> references three distinct node ids, nodes 1 and 2 lie at the same
  point, and the vertex array has two entries.
\<close>

theorem renumber_coincident_nodes_counterexample:
  "renumber_group [(1, (0 :: int, 0 :: int, 0 :: int)), (2, (0, 0, 0)), (3, (1, 0, 0))] [[1, 2, 3]] =
     Inr ([(0, 0, 0), (1, 0, 0)], [[0, 0, 1]]) \<and>
   card (set (concat [[1, 2, 3 :: int]])) = 3 \<and>
   length [(0 :: int, 0 :: int, 0 :: int), (1, 0, 0)] = 2"
proof -
  have "renumber_group [(1, (0 :: int, 0 :: int, 0 :: int)), (2, (0, 0, 0)), (3, (1, 0, 0))] [[1, 2, 3]] =
     Inr ([(0, 0, 0), (1, 0, 0)], [[0, 0, 1]])"
    by code_simp
  then show ?thesis by simp
qed

text \<open>
  Claim C7, amended: for every group whose outer faces, walked in the order \<open>fs\<close> in which the
  set is iterated, reference nodes of the node table with \<open>k\<close> distinct coordinates,
  \<^verbatim>\<open>renumber\<close> produces a vertex array with exactly \<open>k\<close> entries, the coordinates in
  first-seen order; every rewritten face has the length of its face, every index in it is
  below \<open>k\<close> and is the position in the vertex array of the coordinate of the node it replaces.
  When distinct node ids have distinct coordinates, \<open>k\<close> is the number of distinct node ids.
\<close>

theorem renumber_group_dense:
  assumes "renumber_group node_table fs = Inr (vs, faces')"
  shows "vs = first_seen (walk_coords node_table fs) \<and>
         length vs = card (set (walk_coords node_table fs)) \<and>
         length faces' = length fs \<and>
         (\<forall>j<length fs. length (faces' ! j) = length (fs ! j) \<and>
            (\<forall>p<length (fs ! j). faces' ! j ! p < length vs \<and>
               map_of node_table (fs ! j ! p) = Some (vs ! (faces' ! j ! p)))) \<and>
         (inj_on (map_of node_table) (set (concat fs)) \<longrightarrow> length vs = card (set (concat fs)))"
proof -
  let ?st0 = "\<lparr>index_number = 0, vert_coords = Map.empty, verts = ([] :: 'a list), faces = []\<rparr>"
  from assms obtain st where r: "renumber_faces node_table fs ?st0 = Inr st"
    and st: "vs = verts st" "faces' = faces st"
    by (auto simp: renumber_group_def split: sum.splits)
  have inv0: "renum_inv ?st0" by (simp add: renum_inv_def)
  from renumber_faces_spec[OF inv0 r] st have
    1: "vs = first_seen (walk_coords node_table fs)"
    and 3: "length faces' = length fs"
    and 4: "\<forall>j<length fs. length (faces' ! j) = length (fs ! j) \<and>
            (\<forall>p<length (fs ! j). faces' ! j ! p < length vs \<and>
               map_of node_table (fs ! j ! p) = Some (vs ! (faces' ! j ! p)))"
    by (auto simp: first_seen_def walk_coords_def)
  have 2: "length vs = card (set (walk_coords node_table fs))"
    unfolding 1 by (rule length_first_seen)
  have present: "\<forall>f\<in>set fs. \<forall>v\<in>set f. map_of node_table v \<noteq> None"
  proof (rule ccontr)
    assume "\<not> ?thesis"
    then have "renumber_group node_table fs = Inl KeyError"
      by (intro renumber_group_missing) auto
    with assms show False by simp
  qed
  have 5: "length vs = card (set (concat fs))" if inj: "inj_on (map_of node_table) (set (concat fs))"
  proof -
    have "Some ` set (walk_coords node_table fs) = map_of node_table ` set (concat fs)"
      using present by (auto simp: walk_coords_def set_map_filter image_iff) metis+
    then have "card (Some ` set (walk_coords node_table fs)) = card (map_of node_table ` set (concat fs))"
      by (rule arg_cong)
    moreover have "card (Some ` set (walk_coords node_table fs)) = card (set (walk_coords node_table fs))"
      by (rule card_image) simp
    moreover have "card (map_of node_table ` set (concat fs)) = card (set (concat fs))"
      by (rule card_image[OF inj])
    ultimately have "card (set (walk_coords node_table fs)) = card (set (concat fs))"
      by simp
    with 2 show ?thesis by simp
  qed
  from 1 2 3 4 5 show ?thesis by blast
qed

text \<open>
  The theorem at two triangles over four nodes at four different points.
\<close>

theorem renumber_group_dense_witness:
  "renumber_group [(1, (0 :: int, 0 :: int, 0 :: int)), (2, (1, 0, 0)), (3, (1, 1, 0)), (4, (0, 1, 0))]
       [[1, 2, 3], [1, 3, 4]] =
     Inr ([(0, 0, 0), (1, 0, 0), (1, 1, 0), (0, 1, 0)], [[0, 1, 2], [0, 2, 3]]) \<and>
   [(0 :: int, 0 :: int, 0 :: int), (1, 0, 0), (1, 1, 0), (0, 1, 0)] =
     first_seen (walk_coords [(1, (0, 0, 0)), (2, (1, 0, 0)), (3, (1, 1, 0)), (4, (0, 1, 0))]
                   [[1, 2, 3], [1, 3, 4]]) \<and>
   length [(0 :: int, 0 :: int, 0 :: int), (1, 0, 0), (1, 1, 0), (0, 1, 0)] =
     card (set (concat [[1, 2, 3], [1, 3, 4 :: int]]))"
proof -
  have h: "renumber_group [(1, (0 :: int, 0 :: int, 0 :: int)), (2, (1, 0, 0)), (3, (1, 1, 0)), (4, (0, 1, 0))]
       [[1, 2, 3], [1, 3, 4]] =
     Inr ([(0, 0, 0), (1, 0, 0), (1, 1, 0), (0, 1, 0)], [[0, 1, 2], [0, 2, 3]])"
    by code_simp
  have i: "inj_on (map_of [(1, (0 :: int, 0 :: int, 0 :: int)), (2, (1, 0, 0)), (3, (1, 1, 0)), (4, (0, 1, 0))])
             (set (concat [[1, 2, 3], [1, 3, 4 :: int]]))"
    by (simp add: inj_on_def)
  show ?thesis using h i renumber_group_dense[OF h] by blast
qed

text \<open>
  Claim C5, as stated, fails: no stage of the pipeline compares a face with the node table.
  \<^verbatim>\<open>get_faces\<close> is not given \<^verbatim>\<open>global_n\<close> and keeps the face \<open>(1, 2, 3, 4)\<close> of a shell
  element although node 4 is not in the node table, and \<^verbatim>\<open>renumber\<close> then evaluates
  \<^verbatim>\<open>global_n[4]\<close>, which raises \<^verbatim>\<open>KeyError\<close>.
\<close>

theorem dangling_reference_counterexample:
  "get_faces [(1, [1, 1, 1, 1, 2, 3, 4])] [(1, 63)] True = Inr [((1, 1), [[1, 2, 3, 4]])] \<and>
   renumber [(1, (0 :: int, 0 :: int, 0 :: int)), (2, (1, 0, 0)), (3, (1, 1, 0))]
            [((1, 1), [[1, 2, 3, 4]])] = Inl KeyError"
proof -
  have "get_faces [(1, [1, 1, 1, 1, 2, 3, 4])] [(1, 63)] True = Inr [((1, 1), [[1, 2, 3, 4]])]"
    by code_simp
  moreover have "renumber [(1, (0 :: int, 0 :: int, 0 :: int)), (2, (1, 0, 0)), (3, (1, 1, 0))]
            [((1, 1), [[1, 2, 3, 4]])] = Inl KeyError"
    by code_simp
  ultimately show ?thesis by simp
qed

text \<open>
  Claim C5, amended: for every node table \<open>node_table\<close> and every outer-face output
  \<open>global_faces\<close>, \<^verbatim>\<open>renumber\<close> returns when every node id appearing in a face is present in
  the node table; a face that references a node id absent from the table is not dropped,
  \<^verbatim>\<open>renumber\<close> raises \<^verbatim>\<open>KeyError\<close> on it. So whenever the pipeline returns, every node id of
  every emitted face is present in the node table.
\<close>

theorem renumber_dangling_reference:
  "(face_nodes global_faces \<subseteq> fst ` set node_table \<longrightarrow>
      (\<exists>vs fs. renumber node_table global_faces = Inr (vs, fs))) \<and>
   (\<not> face_nodes global_faces \<subseteq> fst ` set node_table \<longrightarrow>
      renumber node_table global_faces = Inl KeyError)"
proof (intro conjI impI)
  assume "face_nodes global_faces \<subseteq> fst ` set node_table"
  then have "\<forall>v\<in>face_nodes global_faces. map_of node_table v \<noteq> None"
    by (auto simp: map_of_eq_None_iff)
  from renumber_loop_present[OF this, of "[]" "[]"]
  show "\<exists>vs fs. renumber node_table global_faces = Inr (vs, fs)"
    by (auto simp: renumber_def)
next
  assume "\<not> face_nodes global_faces \<subseteq> fst ` set node_table"
  then have "\<exists>v\<in>face_nodes global_faces. map_of node_table v = None"
    by (auto simp: map_of_eq_None_iff)
  from renumber_loop_missing[OF this, of "[]" "[]"]
  show "renumber node_table global_faces = Inl KeyError" by (simp add: renumber_def)
qed

theorem renumber_dangling_reference_witness:
  "face_nodes [((1, 1), [[1, 2, 3]])] \<subseteq>
     fst ` set [(1, (0 :: int, 0 :: int, 0 :: int)), (2, (1, 0, 0)), (3, (1, 1, 0))] \<and>
   (\<exists>vs fs. renumber [(1, (0 :: int, 0 :: int, 0 :: int)), (2, (1, 0, 0)), (3, (1, 1, 0))]
               [((1, 1), [[1, 2, 3]])] = Inr (vs, fs))"
proof -
  have a: "face_nodes [((1, 1), [[1, 2, 3]])] \<subseteq>
     fst ` set [(1, (0 :: int, 0 :: int, 0 :: int)), (2, (1, 0, 0)), (3, (1, 1, 0))]"
    by (simp add: face_nodes_def)
  show ?thesis
    using a renumber_dangling_reference[of "[((1, 1), [[1, 2, 3]])]"
        "[(1, (0 :: int, 0 :: int, 0 :: int)), (2, (1, 0, 0)), (3, (1, 1, 0))]"]
    by blast
qed

text \<open>
  Claim C6 does not hold of the code. In the SOLID layout a record that declares more than
  eight nodes enters the loop \<^verbatim>\<open>while field_count < fields[8] + 11\<close>, whose body ends in
  \<^verbatim>\<open>++field_count\<close>: \<^verbatim>\<open>field_count\<close> never changes and the loop is never left. Reading the deck
  with one ten-node element runs out of every amount of fuel.
\<close>

theorem solid_continuation_never_returns:
  "read3DMesh pyfloat fuel module_globals ten_node_deck = None"
proof (cases fuel)
  case 0
  then show ?thesis by (simp add: read3DMesh_def module_globals_def)
next
  case (Suc k)
  have "readEBLOCK_loop k True 19 (replicate 19 (''i'', 8, 0)) \<lparr>field_var = None, end_var = None\<rparr>
          (ten_node_first # [ten_node_second, end_line]) st = None" for st :: "'a mesh"
    by (rule readEBLOCK_loop_continuation_diverges[OF ten_node_first_no_dash ten_node_first_fields]) simp_all
  then have "readEBLOCK k [''eblock'', ''19'', ''solid'', ''1'']
          (format_19i8 # [ten_node_first, ten_node_second, end_line]) st = None" for st :: "'a mesh"
    by (subst readEBLOCK_solid[OF _ _ _ forms_19i8]) (simp_all add: py_int_19)
  then have "parseCommand pyfloat k eblock_line [format_19i8, ten_node_first, ten_node_second, end_line] st = None"
    for st :: "'a mesh"
    by (subst parseCommand_eblock[OF tokens_eblock_line]) simp_all
  then show ?thesis
    unfolding read3DMesh_def module_globals_def lines_ten_node_deck Suc prod.case
    by (intro read_loop_diverges eblock_line_nonempty)
qed


text \<open>
  Claim C9 does not hold of the code. \<^verbatim>\<open>readNBLOCK\<close> returns when \<^verbatim>\<open>readline\<close> gives the empty
  string, but the loop of \<^verbatim>\<open>readEBLOCK\<close> only ends at a line that starts with \<^verbatim>\<open>-\<close>: at the end
  of the file the SOLID branch fills the fields from the stale \<^verbatim>\<open>field\<close>, stores that element
  and reads again, for ever. Reading the deck that ends after its first record runs out of
  every amount of fuel.
\<close>

theorem eblock_end_of_input_never_returns:
  "read3DMesh pyfloat fuel module_globals truncated_deck = None \<and>
   readNBLOCK_loop pyfloat forms [] st = Inr (st, [])"
proof -
  have "read3DMesh pyfloat fuel module_globals truncated_deck = None"
  proof (cases fuel)
    case 0
    then show ?thesis by (simp add: read3DMesh_def module_globals_def)
  next
    case (Suc k)
    have "readEBLOCK_loop k True 19 (replicate 19 (''i'', 8, 0)) \<lparr>field_var = None, end_var = None\<rparr>
            [four_node_record] st = None" for st :: "'a mesh"
      by (rule readEBLOCK_loop_record_then_eof[OF four_node_record_no_dash four_node_record_fields]) simp_all
    then have "readEBLOCK k [''eblock'', ''19'', ''solid'', ''1'']
            (format_19i8 # [four_node_record]) st = None" for st :: "'a mesh"
      by (subst readEBLOCK_solid[OF _ _ _ forms_19i8]) (simp_all add: py_int_19)
    then have "parseCommand pyfloat k eblock_line [format_19i8, four_node_record] st = None"
      for st :: "'a mesh"
      by (subst parseCommand_eblock[OF tokens_eblock_line]) simp_all
    then show ?thesis
      unfolding read3DMesh_def module_globals_def lines_truncated_deck Suc prod.case
      by (intro read_loop_diverges eblock_line_nonempty)
  qed
  then show ?thesis by simp
qed


text \<open>
  Claim C8 does not hold of the code. With an empty id token \<^verbatim>\<open>readET\<close> computes
  \<^verbatim>\<open>et_number\<close> but never assigns \<^verbatim>\<open>et_type\<close>, so \<^verbatim>\<open>global_et[et_number] = et_type\<close> raises
  \<^verbatim>\<open>UnboundLocalError\<close> for every command with at least three tokens, and nothing in
  \<^verbatim>\<open>read3DMesh\<close> catches it: reading \<^verbatim>\<open>ET,,186\<close> assigns no id.
\<close>

theorem et_empty_id_raises:
  "readET (command # [] # family # others) st = Inl UnboundLocalError \<and>
   read3DMesh pyfloat (Suc fuel) module_globals et_command = Some (Inl UnboundLocalError)"
proof -
  have "parseCommand pyfloat fuel et_command [] s = Some (Inl UnboundLocalError)" for s
    by (subst parseCommand_et[OF tokens_et_command]) (simp_all add: readET_empty_id)
  then have "read3DMesh pyfloat (Suc fuel) module_globals et_command = Some (Inl UnboundLocalError)"
    unfolding read3DMesh_def module_globals_def lines_et_command prod.case
    by (intro read_loop_raises et_command_nonempty)
  then show ?thesis by (simp add: readET_empty_id)
qed

text \<open>
  Claim C4. Round trip of a unit cube: eight nodes whose coordinates are the two values \<open>a\<close>
  (0.0) and \<open>b\<close> (1.0), six quadrilateral faces. The two built-in conversions are the
  parameters \<open>fmt_g\<close> and \<open>pyfloat\<close>, and what the theorem assumes of them is what Python
  does: \<^verbatim>\<open>"%16.9g"\<close> formats 0.0 and 1.0 as \<open>zero_text\<close> and \<open>one_text\<close>, and \<^verbatim>\<open>float\<close> reads
  these back. Then reading the text that the writer produces returns (fuel 100 is enough) with
  the eight nodes, face extraction with \<^verbatim>\<open>remove_duplicates=True\<close> gives one group with six
  outer faces, and renumbering them, in whatever order the set is iterated, gives eight
  vertices and six faces.
\<close>

theorem cube_round_trip:
  fixes pyfloat :: "string \<Rightarrow> 'c::{zero,equal} option"
  assumes "fmt_g a = zero_text" and "fmt_g b = one_text"
    and "pyfloat zero_text = Some a" and "pyfloat one_text = Some b" and "a \<noteq> b"
  shows "\<exists>st F.
           read3DMesh pyfloat 100 module_globals
             (write_cdb fmt_g (cube_nodes a b) cube_faces 1 False 1 False) = Some (Inr st) \<and>
           global_n st = cube_nodes a b \<and> length (global_n st) = 8 \<and>
           get_faces (global_e st) (global_et st) True = Inr [((1, 1), F)] \<and>
           length F = 6 \<and> distinct F \<and>
           (\<forall>fs. set fs = set F \<and> distinct fs \<longrightarrow>
              (\<exists>vs faces'. renumber (global_n st) [((1, 1), fs)] =
                               Inr ([((1, 1), vs)], [((1, 1), faces')]) \<and>
                             length vs = 8 \<and> length faces' = 6))"
proof -
  let ?st = "\<lparr>global_et = [(1, 63), (2, 93)], global_e = cube_elements,
              global_n = cube_nodes a b,
              current_element = None, current_mat = None, current_real = None,
              current_type = Some 2\<rparr>"
  have p: "parsed pyfloat zero_text = a" "parsed pyfloat one_text = b"
    using assms(3,4) by (simp_all add: parsed_def)
  have "read3DMesh pyfloat 100 module_globals
          (write_cdb fmt_g (cube_nodes a b) cube_faces 1 False 1 False) = Some (Inr ?st)"
    using read_cube_text[of pyfloat]
    by (simp add: write_cube[of fmt_g a b, OF assms(1,2)] p cube_elements_def)
  moreover have "global_n ?st = cube_nodes a b" by simp
  moreover have "length (global_n ?st) = 8" by (simp add: cube_nodes_def)
  moreover have "get_faces (global_e ?st) (global_et ?st) True = Inr [((1, 1), cube_outer)]"
    using cube_get_faces by simp
  moreover have "length cube_outer = 6" "distinct cube_outer" by (simp_all add: cube_outer_def)
  moreover have "\<forall>fs. set fs = set cube_outer \<and> distinct fs \<longrightarrow>
              (\<exists>vs faces'. renumber (global_n ?st) [((1, 1), fs)] =
                               Inr ([((1, 1), vs)], [((1, 1), faces')]) \<and>
                             length vs = 8 \<and> length faces' = 6)"
    using cube_renumber[OF assms(5)] by simp
  ultimately show ?thesis by blast
qed

lemma py_int_corner_texts: "py_int zero_text = Some 0" "py_int one_text = Some 1"
  by code_simp+

theorem cube_round_trip_witness:
  "\<exists>st F.
     read3DMesh py_int 100 module_globals
       (write_cdb (\<lambda>c :: int. if c = 0 then zero_text else one_text) (cube_nodes 0 1)
          cube_faces 1 False 1 False) = Some (Inr st) \<and>
     global_n st = cube_nodes 0 1 \<and> length (global_n st) = 8 \<and>
     get_faces (global_e st) (global_et st) True = Inr [((1, 1), F)] \<and> length F = 6"
proof -
  have "(0 :: int) \<noteq> 1" by simp
  from cube_round_trip[of "\<lambda>c :: int. if c = 0 then zero_text else one_text" 0 1 py_int,
      OF _ _ py_int_corner_texts this]
  show ?thesis by simp blast
qed

end
